theory Spec2Isabelle
  imports Main "HOL-Library.Word"
begin

unbundle bit_operations_syntax

section \<open>Data model of \<^verbatim>\<open>fftools_ffmpeg_opt.c\<close>: input files and their streams\<close>

text \<open>
  Timestamps are \<^verbatim>\<open>int64_t\<close>: a 64-bit word, compared as a signed value. Signed overflow
  is undefined in C; in the model \<open>+\<close>, \<open>-\<close> and \<open>*\<close> wrap around, as two's complement
  hardware does. An unknown timestamp is the sentinel \<^verbatim>\<open>AV_NOPTS_VALUE\<close>, as in the code.
  The plain \<^verbatim>\<open>int\<close> values of the code (the two option flags, the sync reference, the
  loop index) are only tested and compared, never computed with, so they are \<open>int\<close> and
  \<open>nat\<close>.
\<close>

type_synonym int64 = "64 word"

text \<open>
  Modelled from the spec: the headers that declare \<^verbatim>\<open>AV_NOPTS_VALUE\<close>, \<^verbatim>\<open>AVFMT_TS_DISCONT\<close>,
  \<^verbatim>\<open>AV_TIME_BASE_Q\<close>, \<^verbatim>\<open>enum AVDiscard\<close> and the structures below belong to FFmpeg and are
  not in this repository. The spec calls \<^verbatim>\<open>AV_NOPTS_VALUE\<close> the "unknown" timestamp,
  \<^verbatim>\<open>AVFMT_TS_DISCONT\<close> the capability flag for discontinuous timestamps and
  \<^verbatim>\<open>AV_TIME_BASE_Q\<close> the global time unit of 1/1000000 second. The values are those of
  FFmpeg's headers. Only the examples evaluate them: the general theorems hold for any
  values of the three. The records have the fields the two functions read and write.
\<close>

definition INT64_MAX :: int64 where
  "INT64_MAX = 0x7FFFFFFFFFFFFFFF"

definition AV_NOPTS_VALUE :: int64 where
  "AV_NOPTS_VALUE = 0x8000000000000000"

definition AVFMT_TS_DISCONT :: "32 word" where
  "AVFMT_TS_DISCONT = 0x0200"

datatype AVDiscard =
    AVDISCARD_NONE | AVDISCARD_DEFAULT | AVDISCARD_NONREF | AVDISCARD_BIDIR
  | AVDISCARD_NONINTRA | AVDISCARD_NONKEY | AVDISCARD_ALL

record AVRational =
  rat_num :: int
  rat_den :: int

definition AV_TIME_BASE_Q :: AVRational where
  "AV_TIME_BASE_Q = \<lparr>rat_num = 1, rat_den = 1000000\<rparr>"

record AVStream =
  discard :: AVDiscard
  st_start_time :: int64
  time_base :: AVRational

text \<open>
  \<open>iformat_flags\<close> is \<^verbatim>\<open>ctx->iformat->flags\<close>, \<open>ctx_start_time\<close> is \<^verbatim>\<open>ctx->start_time\<close>
  (the start time the container reports); the list \<open>streams\<close> holds
  \<^verbatim>\<open>ctx->streams[0 .. nb_streams - 1]\<close>.
\<close>

record AVFormatContext =
  iformat_flags :: "32 word"
  ctx_start_time :: int64
  start_time_realtime :: int64
  streams :: "AVStream list"

text \<open>
  \<open>start_time\<close> is the start time the user asked for, \<open>input_ts_offset\<close> the timestamp
  offset the user supplied, \<open>ts_offset\<close> the offset applied when demuxing, and
  \<open>input_sync_ref\<close> the index of the input to synchronise with (\<open>-1\<close>: none).
\<close>

record InputFile =
  ctx :: AVFormatContext
  start_time :: int64
  start_time_effective :: int64
  ts_offset :: int64
  input_ts_offset :: int64
  input_sync_ref :: int

text \<open>The two thread-local option flags, C \<^verbatim>\<open>int\<close>s tested for being nonzero.\<close>

record globals =
  copy_ts :: int
  start_at_zero :: int

text \<open>
  \<^verbatim>\<open>av_rescale_q(a, bq, cq)\<close> belongs to libavutil and is a parameter of the model: the
  theorems below hold for every function of this type.
\<close>

type_synonym rescale_q = "int64 \<Rightarrow> AVRational \<Rightarrow> AVRational \<Rightarrow> int64"

text \<open>
  Modelled from the spec: \<^verbatim>\<open>av_rescale_q\<close> is declared in libavutil and has no body in this
  repository; the spec describes it as exact rational scaling of the stream start time by
  its time base into the global unit, "numerator times globalUnit over denominator".
  It is used only to run the model on concrete inputs.
\<close>

definition av_rescale_q :: rescale_q where
  "av_rescale_q a bq cq =
     word_of_int ((sint a * (rat_num bq * rat_den cq)) div (rat_den bq * rat_num cq))"

section \<open>\<^verbatim>\<open>correct_input_start_times\<close>\<close>

text \<open>\<^verbatim>\<open>#define FFMIN(a,b) ((a) > (b) ? (b) : (a))\<close> on signed 64-bit values.\<close>

definition FFMIN :: "int64 \<Rightarrow> int64 \<Rightarrow> int64" where
  "FFMIN a b = (if b <s a then b else a)"

text \<open>The loop over the streams of one input, with \<open>new_start_time\<close> as accumulator.\<close>

fun stream_loop :: "rescale_q \<Rightarrow> AVStream list \<Rightarrow> int64 \<Rightarrow> int64" where
  "stream_loop rescale [] new_start_time = new_start_time"
| "stream_loop rescale (st # sts) new_start_time =
     (if discard st = AVDISCARD_ALL \<or> st_start_time st = AV_NOPTS_VALUE
      then stream_loop rescale sts new_start_time
      else stream_loop rescale sts
             (FFMIN new_start_time (rescale (st_start_time st) (time_base st) AV_TIME_BASE_Q)))"

text \<open>
  The body of the outer loop for one input. The \<^verbatim>\<open>av_log\<close> call of the body writes a
  verbose trace and touches nothing of the input; it is left out.
\<close>

definition correct_input_file :: "rescale_q \<Rightarrow> globals \<Rightarrow> InputFile \<Rightarrow> InputFile" where
  "correct_input_file rescale g ifile0 =
     (let fc = ctx ifile0;
          ifile = ifile0\<lparr>start_time_effective := ctx_start_time fc\<rparr>
      in if ctx_start_time fc = AV_NOPTS_VALUE \<or> iformat_flags fc AND AVFMT_TS_DISCONT = 0
         then ifile
         else
           let new_start_time = stream_loop rescale (streams fc) INT64_MAX;
               diff = new_start_time - ctx_start_time fc
           in if diff \<noteq> 0 then
                let ifile1 = ifile\<lparr>start_time_effective := new_start_time\<rparr>;
                    ifile2 =
                      (if copy_ts g \<noteq> 0 \<and> start_at_zero g \<noteq> 0
                       then ifile1\<lparr>ts_offset := - new_start_time\<rparr>
                       else if copy_ts g = 0 then
                         let abs_start_seek =
                               ctx_start_time fc +
                               (if start_time ifile1 \<noteq> AV_NOPTS_VALUE then start_time ifile1 else 0)
                         in ifile1\<lparr>ts_offset :=
                              (if new_start_time <s abs_start_seek
                               then - abs_start_seek else - new_start_time)\<rparr>
                       else if copy_ts g \<noteq> 0 then ifile1\<lparr>ts_offset := 0\<rparr>
                       else ifile1)
                in ifile2\<lparr>ts_offset := ts_offset ifile2 + input_ts_offset ifile2\<rparr>
              else ifile)"

text \<open>
  The outer loop visits every input once, and iteration \<open>i\<close> reads and writes
  \<^verbatim>\<open>input_files[i]\<close> only.
\<close>

definition correct_input_start_times ::
    "rescale_q \<Rightarrow> globals \<Rightarrow> InputFile list \<Rightarrow> InputFile list" where
  "correct_input_start_times rescale g input_files =
     map (correct_input_file rescale g) input_files"

section \<open>\<^verbatim>\<open>apply_sync_offsets\<close>\<close>

text \<open>\<^verbatim>\<open>AVERROR(EINVAL)\<close>, the only error the function returns.\<close>

datatype error = EINVAL

text \<open>The diagnostics of the function: the level of each \<^verbatim>\<open>av_log\<close> call and its arguments.\<close>

datatype log_level = AV_LOG_FATAL | AV_LOG_ERROR | AV_LOG_INFO

datatype log_msg =
    Nonexistent_input nat int
  | Requires_start_at_zero
  | Resynced_input nat int
  | Adjusted_ts_offset nat int64 int
  | No_start_times nat int

type_synonym log_entry = "log_level \<times> log_msg"

text \<open>
  The choice of the two start times: \<open>None\<close> is \<^verbatim>\<open>start_times_set = 0\<close>, otherwise the pair
  \<open>(self_start_time, ref_start_time)\<close>.
\<close>

definition sync_start_times :: "InputFile \<Rightarrow> InputFile \<Rightarrow> (int64 \<times> int64) option" where
  "sync_start_times self ref =
     (if start_time_realtime (ctx self) \<noteq> AV_NOPTS_VALUE \<and>
         start_time_realtime (ctx ref) \<noteq> AV_NOPTS_VALUE
      then Some (start_time_realtime (ctx self), start_time_realtime (ctx ref))
      else if start_time_effective self \<noteq> AV_NOPTS_VALUE \<and>
              start_time_effective ref \<noteq> AV_NOPTS_VALUE
      then Some (start_time_effective self, start_time_effective ref)
      else None)"

text \<open>
  The body of the loop for input \<open>i\<close>: the diagnostics it writes, and either the error it
  returns or the registry after it. Both \<^verbatim>\<open>return AVERROR(EINVAL)\<close> come before any
  assignment, so an error leaves the registry as the iteration found it.
\<close>

definition sync_input ::
    "globals \<Rightarrow> InputFile list \<Rightarrow> nat \<Rightarrow> log_entry list \<times> (error + InputFile list)" where
  "sync_input g input_files i =
     (let self = input_files ! i in
      if input_sync_ref self = - 1 \<or> input_sync_ref self = int i
      then ([], Inr input_files)
      else if input_sync_ref self \<ge> int (length input_files) \<or> input_sync_ref self < - 1
      then ([(AV_LOG_FATAL, Nonexistent_input i (input_sync_ref self))], Inl EINVAL)
      else if copy_ts g \<noteq> 0 \<and> start_at_zero g = 0
      then ([(AV_LOG_FATAL, Requires_start_at_zero)], Inl EINVAL)
      else
        let ref = input_files ! nat (input_sync_ref self) in
        if input_sync_ref ref \<noteq> - 1 \<and> input_sync_ref ref \<noteq> input_sync_ref self
        then ([(AV_LOG_ERROR, Resynced_input i (input_sync_ref self))], Inr input_files)
        else
          (case sync_start_times self ref of
             Some (self_start_time, ref_start_time) \<Rightarrow>
               let self_seek_start =
                     (if start_time self = AV_NOPTS_VALUE then 0 else start_time self);
                   ref_seek_start =
                     (if start_time ref = AV_NOPTS_VALUE then 0 else start_time ref);
                   adjustment =
                     (self_start_time - ref_start_time) +
                     (if copy_ts g = 0 then 1 else 0) * (self_seek_start - ref_seek_start) +
                     input_ts_offset ref
               in ([(AV_LOG_INFO, Adjusted_ts_offset i adjustment (input_sync_ref self))],
                   Inr (input_files[i := self\<lparr>ts_offset := ts_offset self + adjustment\<rparr>]))
           | None \<Rightarrow>
               ([(AV_LOG_INFO, No_start_times i (input_sync_ref self))], Inr input_files)))"

text \<open>
  The loop \<^verbatim>\<open>for (i = 0; i < nb_input_files; i++)\<close> over the indices still to visit. The
  result is the return value, the registry and the diagnostics written so far.
\<close>

fun sync_loop ::
    "globals \<Rightarrow> InputFile list \<Rightarrow> log_entry list \<Rightarrow> nat list \<Rightarrow>
     (error + unit) \<times> InputFile list \<times> log_entry list" where
  "sync_loop g input_files lg [] = (Inr (), input_files, lg)"
| "sync_loop g input_files lg (i # is) =
     (case sync_input g input_files i of
        (msgs, Inl e) \<Rightarrow> (Inl e, input_files, lg @ msgs)
      | (msgs, Inr input_files') \<Rightarrow> sync_loop g input_files' (lg @ msgs) is)"

definition apply_sync_offsets ::
    "globals \<Rightarrow> InputFile list \<Rightarrow> (error + unit) \<times> InputFile list \<times> log_entry list" where
  "apply_sync_offsets g input_files =
     sync_loop g input_files [] [0 ..< length input_files]"

section \<open>Notions of the specification\<close>

text \<open>
  A stream counts for the start time of its input when it is not marked
  \<^verbatim>\<open>AVDISCARD_ALL\<close> and its own start time is known; \<open>stream_starts\<close> lists the start
  times of these streams, rescaled to the global time base.
\<close>

definition eligible :: "AVStream \<Rightarrow> bool" where
  "eligible st \<longleftrightarrow> discard st \<noteq> AVDISCARD_ALL \<and> st_start_time st \<noteq> AV_NOPTS_VALUE"

definition stream_starts :: "rescale_q \<Rightarrow> AVStream list \<Rightarrow> int64 list" where
  "stream_starts rescale sts =
     map (\<lambda>st. rescale (st_start_time st) (time_base st) AV_TIME_BASE_Q) (filter eligible sts)"

text \<open>The start time the user asked for, or zero when there is none.\<close>

definition seek_start :: "InputFile \<Rightarrow> int64" where
  "seek_start f = (if start_time f = AV_NOPTS_VALUE then 0 else start_time f)"

text \<open>
  The two pairs of start times the synchronizer can compare: the wall-clock start times
  of the two inputs, and their effective start times. A pair is known when both of its
  values are.
\<close>

definition realtime_known :: "InputFile \<Rightarrow> InputFile \<Rightarrow> bool" where
  "realtime_known self ref \<longleftrightarrow>
     start_time_realtime (ctx self) \<noteq> AV_NOPTS_VALUE \<and>
     start_time_realtime (ctx ref) \<noteq> AV_NOPTS_VALUE"

definition effective_known :: "InputFile \<Rightarrow> InputFile \<Rightarrow> bool" where
  "effective_known self ref \<longleftrightarrow>
     start_time_effective self \<noteq> AV_NOPTS_VALUE \<and>
     start_time_effective ref \<noteq> AV_NOPTS_VALUE"

text \<open>
  The fatal conditions of the synchronizer at input \<open>i\<close>: the input names another input,
  and either the index it names is out of range, or \<^verbatim>\<open>copy_ts\<close> is set without
  \<^verbatim>\<open>start_at_zero\<close>.
\<close>

definition ref_out_of_range :: "InputFile list \<Rightarrow> nat \<Rightarrow> bool" where
  "ref_out_of_range fs i \<longleftrightarrow>
     input_sync_ref (fs ! i) \<ge> int (length fs) \<or> input_sync_ref (fs ! i) < - 1"

definition active_ref :: "InputFile list \<Rightarrow> nat \<Rightarrow> bool" where
  "active_ref fs i \<longleftrightarrow> input_sync_ref (fs ! i) \<noteq> - 1 \<and> input_sync_ref (fs ! i) \<noteq> int i"

definition sync_fatal :: "globals \<Rightarrow> InputFile list \<Rightarrow> nat \<Rightarrow> bool" where
  "sync_fatal g fs i \<longleftrightarrow>
     active_ref fs i \<and> (ref_out_of_range fs i \<or> (copy_ts g \<noteq> 0 \<and> start_at_zero g = 0))"

text \<open>The three components of the result of \<open>apply_sync_offsets\<close>.\<close>

abbreviation ret_of :: "(error + unit) \<times> InputFile list \<times> log_entry list \<Rightarrow> error + unit" where
  "ret_of res \<equiv> fst res"

abbreviation files_of :: "(error + unit) \<times> InputFile list \<times> log_entry list \<Rightarrow> InputFile list" where
  "files_of res \<equiv> fst (snd res)"

abbreviation log_of :: "(error + unit) \<times> InputFile list \<times> log_entry list \<Rightarrow> log_entry list" where
  "log_of res \<equiv> snd (snd res)"

text \<open>
  Two registries have the same configuration when they differ in the \<open>ts_offset\<close> fields
  only: the synchronizer writes no other field.
\<close>

definition same_config :: "InputFile list \<Rightarrow> InputFile list \<Rightarrow> bool" where
  "same_config fs cur \<longleftrightarrow>
     length cur = length fs \<and>
     (\<forall>j < length fs. cur ! j = (fs ! j)\<lparr>ts_offset := ts_offset (cur ! j)\<rparr>)"

section \<open>Example inputs\<close>

text \<open>
  An MPEG-TS-like input (its format sets \<^verbatim>\<open>AVFMT_TS_DISCONT\<close>) that reports the start time
  900000 and has one stream starting at 1000000 in the global time base, and an input of
  a format without the flag that starts at 1200000 and is synchronised with input 0.
\<close>

definition ex_globals :: globals where
  "ex_globals = \<lparr>copy_ts = 0, start_at_zero = 0\<rparr>"

definition ex_ts_input :: InputFile where
  "ex_ts_input =
     \<lparr>ctx = \<lparr>iformat_flags = 0x0200, ctx_start_time = 900000,
              start_time_realtime = AV_NOPTS_VALUE,
              streams = [\<lparr>discard = AVDISCARD_NONE, st_start_time = 1000000,
                          time_base = \<lparr>rat_num = 1, rat_den = 1000000\<rparr>\<rparr>]\<rparr>,
      start_time = AV_NOPTS_VALUE, start_time_effective = 0, ts_offset = 0,
      input_ts_offset = 0, input_sync_ref = - 1\<rparr>"

definition ex_synced_input :: InputFile where
  "ex_synced_input =
     \<lparr>ctx = \<lparr>iformat_flags = 0, ctx_start_time = 1200000,
              start_time_realtime = AV_NOPTS_VALUE, streams = []\<rparr>,
      start_time = AV_NOPTS_VALUE, start_time_effective = 0, ts_offset = 0,
      input_ts_offset = 0, input_sync_ref = 0\<rparr>"

text \<open>The same MPEG-TS-like input with its only stream discarded.\<close>

definition ex_unused_input :: InputFile where
  "ex_unused_input =
     \<lparr>ctx = \<lparr>iformat_flags = 0x0200, ctx_start_time = 900000,
              start_time_realtime = AV_NOPTS_VALUE,
              streams = [\<lparr>discard = AVDISCARD_ALL, st_start_time = 1000000,
                          time_base = \<lparr>rat_num = 1, rat_den = 1000000\<rparr>\<rparr>]\<rparr>,
      start_time = AV_NOPTS_VALUE, start_time_effective = 0, ts_offset = 0,
      input_ts_offset = 0, input_sync_ref = - 1\<rparr>"

text \<open>
  An input with streams starting at 5000, 2000 and 8000 and a discarded stream starting at
  1000, the start time its container reports.
\<close>

definition ex_multi_input :: InputFile where
  "ex_multi_input =
     \<lparr>ctx = \<lparr>iformat_flags = 0x0200, ctx_start_time = 1000,
              start_time_realtime = AV_NOPTS_VALUE,
              streams =
                [\<lparr>discard = AVDISCARD_NONE, st_start_time = 5000,
                   time_base = \<lparr>rat_num = 1, rat_den = 1000000\<rparr>\<rparr>,
                 \<lparr>discard = AVDISCARD_ALL, st_start_time = 1000,
                   time_base = \<lparr>rat_num = 1, rat_den = 1000000\<rparr>\<rparr>,
                 \<lparr>discard = AVDISCARD_NONE, st_start_time = 2000,
                   time_base = \<lparr>rat_num = 1, rat_den = 1000000\<rparr>\<rparr>,
                 \<lparr>discard = AVDISCARD_NONE, st_start_time = 8000,
                   time_base = \<lparr>rat_num = 1, rat_den = 1000000\<rparr>\<rparr>]\<rparr>,
      start_time = AV_NOPTS_VALUE, start_time_effective = 0, ts_offset = 0,
      input_ts_offset = 0, input_sync_ref = - 1\<rparr>"

text \<open>The registry after the first pass, as the synchronizer receives it.\<close>

definition ex_registry :: "InputFile list" where
  "ex_registry =
     correct_input_start_times av_rescale_q ex_globals [ex_ts_input, ex_synced_input]"

text \<open>
  Three inputs: input 0 is synchronised with input 1, input 1 with nothing, and input 2
  names an input 7 that does not exist.
\<close>

definition ex_dangling_registry :: "InputFile list" where
  "ex_dangling_registry =
     correct_input_start_times av_rescale_q ex_globals
       [ex_synced_input\<lparr>input_sync_ref := 1\<rparr>, ex_ts_input,
        ex_synced_input\<lparr>input_sync_ref := 7\<rparr>]"

text \<open>Two inputs that name each other.\<close>

definition ex_mutual_registry :: "InputFile list" where
  "ex_mutual_registry =
     correct_input_start_times av_rescale_q ex_globals
       [ex_ts_input\<lparr>input_sync_ref := 1\<rparr>, ex_synced_input]"

text \<open>
  Four inputs: input 0 is synchronised with input 1, input 2 names an input 7 that does not
  exist, and input 3, after it, is synchronised with input 1 as well.
\<close>

definition ex_dangling_middle_registry :: "InputFile list" where
  "ex_dangling_middle_registry =
     correct_input_start_times av_rescale_q ex_globals
       [ex_synced_input\<lparr>input_sync_ref := 1\<rparr>, ex_ts_input,
        ex_synced_input\<lparr>input_sync_ref := 7\<rparr>, ex_synced_input\<lparr>input_sync_ref := 1\<rparr>]"

text \<open>An input whose container reports no start time.\<close>

definition ex_unknown_input :: InputFile where
  "ex_unknown_input =
     ex_synced_input\<lparr>ctx := (ctx ex_synced_input)\<lparr>ctx_start_time := AV_NOPTS_VALUE\<rparr>\<rparr>"

text \<open>
  Six inputs, one for each way of being skipped, with synchronised inputs between them:
  input 0 has no reference, input 1 names itself, input 2 names input 3, which is itself
  synchronised with input 0, input 4 has no start time to compare, and inputs 3 and 5 are
  synchronised with input 0.
\<close>

definition ex_skipping_registry :: "InputFile list" where
  "ex_skipping_registry =
     correct_input_start_times av_rescale_q ex_globals
       [ex_ts_input, ex_synced_input\<lparr>input_sync_ref := 1\<rparr>,
        ex_synced_input\<lparr>input_sync_ref := 3\<rparr>, ex_synced_input,
        ex_unknown_input, ex_synced_input]"

section \<open>The stream loop computes a signed minimum\<close>

lemma sint_FFMIN: "sint (FFMIN a b) = min (sint a) (sint b)"
  by (simp add: FFMIN_def word_sless_alt min_def)

lemma FFMIN_cases: "FFMIN a b = a \<or> FFMIN a b = b"
  by (simp add: FFMIN_def)

lemma stream_loop_le_acc: "sint (stream_loop rescale sts acc) \<le> sint acc"
proof (induction sts arbitrary: acc)
  case Nil
  show ?case by simp
next
  case (Cons st sts)
  show ?case
  proof (cases "eligible st")
    case False
    then show ?thesis using Cons.IH[of acc] by (simp add: eligible_def)
  next
    case True
    let ?v = "rescale (st_start_time st) (time_base st) AV_TIME_BASE_Q"
    have "sint (stream_loop rescale sts (FFMIN acc ?v)) \<le> sint (FFMIN acc ?v)"
      by (rule Cons.IH)
    also have "\<dots> \<le> sint acc" by (simp add: sint_FFMIN)
    finally show ?thesis using True by (simp add: eligible_def)
  qed
qed

lemma stream_loop_lower:
  "v \<in> set (stream_starts rescale sts) \<Longrightarrow> sint (stream_loop rescale sts acc) \<le> sint v"
proof (induction sts arbitrary: acc)
  case Nil
  then show ?case by (simp add: stream_starts_def)
next
  case (Cons st sts)
  show ?case
  proof (cases "eligible st")
    case False
    then have "v \<in> set (stream_starts rescale sts)"
      using Cons.prems by (simp add: stream_starts_def)
    then show ?thesis using Cons.IH[of acc] False by (simp add: eligible_def)
  next
    case True
    let ?v = "rescale (st_start_time st) (time_base st) AV_TIME_BASE_Q"
    have step: "stream_loop rescale (st # sts) acc = stream_loop rescale sts (FFMIN acc ?v)"
      using True by (simp add: eligible_def)
    from Cons.prems True have "v = ?v \<or> v \<in> set (stream_starts rescale sts)"
      by (simp add: stream_starts_def)
    then show ?thesis
    proof
      assume "v = ?v"
      have "sint (stream_loop rescale sts (FFMIN acc ?v)) \<le> sint (FFMIN acc ?v)"
        by (rule stream_loop_le_acc)
      also have "\<dots> \<le> sint ?v" by (simp add: sint_FFMIN)
      finally show ?thesis using step \<open>v = ?v\<close> by simp
    next
      assume "v \<in> set (stream_starts rescale sts)"
      then show ?thesis using Cons.IH[of "FFMIN acc ?v"] step by simp
    qed
  qed
qed

lemma stream_loop_mem:
  "stream_loop rescale sts acc = acc \<or>
   stream_loop rescale sts acc \<in> set (stream_starts rescale sts)"
proof (induction sts arbitrary: acc)
  case Nil
  show ?case by simp
next
  case (Cons st sts)
  show ?case
  proof (cases "eligible st")
    case False
    then have "stream_loop rescale (st # sts) acc = stream_loop rescale sts acc"
      and "stream_starts rescale (st # sts) = stream_starts rescale sts"
      by (simp_all add: eligible_def stream_starts_def)
    then show ?thesis using Cons.IH[of acc] by simp
  next
    case True
    let ?v = "rescale (st_start_time st) (time_base st) AV_TIME_BASE_Q"
    have step: "stream_loop rescale (st # sts) acc = stream_loop rescale sts (FFMIN acc ?v)"
      using True by (simp add: eligible_def)
    have starts: "stream_starts rescale (st # sts) = ?v # stream_starts rescale sts"
      using True by (simp add: stream_starts_def)
    show ?thesis
      using Cons.IH[of "FFMIN acc ?v"] FFMIN_cases[of acc ?v] step starts by auto
  qed
qed

lemma stream_loop_no_eligible:
  "stream_starts rescale sts = [] \<Longrightarrow> stream_loop rescale sts acc = acc"
  using stream_loop_mem[of rescale sts acc] by simp

lemma sint_INT64_MAX: "sint (v :: int64) \<le> sint INT64_MAX"
proof -
  have "sint v < 2 ^ (LENGTH(64) - 1)" using sint_lt[of v] .
  then show ?thesis by (simp add: INT64_MAX_def)
qed

lemma stream_loop_Min:
  assumes "stream_starts rescale sts \<noteq> []"
  shows "sint (stream_loop rescale sts INT64_MAX) = Min (sint ` set (stream_starts rescale sts))"
proof -
  let ?m = "stream_loop rescale sts INT64_MAX"
  obtain v where v: "v \<in> set (stream_starts rescale sts)"
    using assms by (cases "stream_starts rescale sts") auto
  have mem: "?m \<in> set (stream_starts rescale sts)"
  proof (rule disjE[OF stream_loop_mem[of rescale sts INT64_MAX]])
    assume m: "?m = INT64_MAX"
    have "sint ?m \<le> sint v" using v by (rule stream_loop_lower)
    then have "sint v = sint INT64_MAX" using sint_INT64_MAX[of v] m by simp
    then have "v = INT64_MAX" by (rule signed_word_eqI)
    then show ?thesis using v m by simp
  qed
  have "Min (sint ` set (stream_starts rescale sts)) = sint ?m"
  proof (rule Min_eqI)
    show "finite (sint ` set (stream_starts rescale sts))" by simp
    show "\<And>y. y \<in> sint ` set (stream_starts rescale sts) \<Longrightarrow> sint ?m \<le> y"
      using stream_loop_lower by auto
    show "sint ?m \<in> sint ` set (stream_starts rescale sts)" using mem by simp
  qed
  then show ?thesis by simp
qed

lemma correct_input_file_skip:
  "ctx_start_time (ctx f) = AV_NOPTS_VALUE \<or> iformat_flags (ctx f) AND AVFMT_TS_DISCONT = 0 \<Longrightarrow>
   correct_input_file rescale g f = f\<lparr>start_time_effective := ctx_start_time (ctx f)\<rparr>"
  by (simp add: correct_input_file_def Let_def)

lemma correct_input_file_same:
  "ctx_start_time (ctx f) \<noteq> AV_NOPTS_VALUE \<Longrightarrow>
   iformat_flags (ctx f) AND AVFMT_TS_DISCONT \<noteq> 0 \<Longrightarrow>
   stream_loop rescale (streams (ctx f)) INT64_MAX = ctx_start_time (ctx f) \<Longrightarrow>
   correct_input_file rescale g f = f\<lparr>start_time_effective := ctx_start_time (ctx f)\<rparr>"
  by (simp add: correct_input_file_def Let_def)

lemma correct_input_file_diff:
  "ctx_start_time (ctx f) \<noteq> AV_NOPTS_VALUE \<Longrightarrow>
   iformat_flags (ctx f) AND AVFMT_TS_DISCONT \<noteq> 0 \<Longrightarrow>
   T = stream_loop rescale (streams (ctx f)) INT64_MAX \<Longrightarrow>
   T \<noteq> ctx_start_time (ctx f) \<Longrightarrow>
   correct_input_file rescale g f =
     f\<lparr>start_time_effective := T,
       ts_offset :=
         (if copy_ts g \<noteq> 0 \<and> start_at_zero g \<noteq> 0 then - T
          else if copy_ts g = 0 then
            (if T <s ctx_start_time (ctx f) +
                      (if start_time f \<noteq> AV_NOPTS_VALUE then start_time f else 0)
             then - (ctx_start_time (ctx f) +
                      (if start_time f \<noteq> AV_NOPTS_VALUE then start_time f else 0))
             else - T)
          else 0) + input_ts_offset f\<rparr>"
  by (simp add: correct_input_file_def Let_def)

lemma neg_signed_max:
  "(if b <s a then - a else - b) = - (word_of_int (max (sint a) (sint b)) :: int64)"
  by (simp add: word_sless_alt max_def)

lemma correct_input_file_idem:
  "correct_input_file rescale g (correct_input_file rescale g f) = correct_input_file rescale g f"
proof (cases "ctx_start_time (ctx f) = AV_NOPTS_VALUE \<or> iformat_flags (ctx f) AND AVFMT_TS_DISCONT = 0")
  case True
  then show ?thesis
    by (simp add: correct_input_file_skip)
next
  case False
  then have k: "ctx_start_time (ctx f) \<noteq> AV_NOPTS_VALUE"
    and d: "iformat_flags (ctx f) AND AVFMT_TS_DISCONT \<noteq> 0" by simp_all
  show ?thesis
  proof (cases "stream_loop rescale (streams (ctx f)) INT64_MAX = ctx_start_time (ctx f)")
    case True
    show ?thesis
      using k d True by (simp add: correct_input_file_same)
  next
    case False
    then have ne: "stream_loop rescale (streams (ctx f)) INT64_MAX \<noteq> ctx_start_time (ctx f)" .
    note first = correct_input_file_diff[OF k d refl ne, of g]
    show ?thesis
      apply (subst (1 2) first)
      apply (subst correct_input_file_diff[where T = "stream_loop rescale (streams (ctx f)) INT64_MAX"])
      using k d ne by simp_all
  qed
qed

section \<open>The branches of the synchronizer's loop body\<close>

lemma sync_input_no_ref:
  "input_sync_ref (fs ! i) = - 1 \<or> input_sync_ref (fs ! i) = int i \<Longrightarrow>
   sync_input g fs i = ([], Inr fs)"
  by (simp add: sync_input_def Let_def)

lemma sync_input_nonexistent:
  "input_sync_ref (fs ! i) \<noteq> - 1 \<Longrightarrow> input_sync_ref (fs ! i) \<noteq> int i \<Longrightarrow>
   input_sync_ref (fs ! i) \<ge> int (length fs) \<or> input_sync_ref (fs ! i) < - 1 \<Longrightarrow>
   sync_input g fs i =
     ([(AV_LOG_FATAL, Nonexistent_input i (input_sync_ref (fs ! i)))], Inl EINVAL)"
  by (simp add: sync_input_def Let_def)

lemma sync_input_flags:
  "input_sync_ref (fs ! i) \<noteq> - 1 \<Longrightarrow> input_sync_ref (fs ! i) \<noteq> int i \<Longrightarrow>
   input_sync_ref (fs ! i) < int (length fs) \<Longrightarrow> - 1 \<le> input_sync_ref (fs ! i) \<Longrightarrow>
   copy_ts g \<noteq> 0 \<Longrightarrow> start_at_zero g = 0 \<Longrightarrow>
   sync_input g fs i = ([(AV_LOG_FATAL, Requires_start_at_zero)], Inl EINVAL)"
  by (simp add: sync_input_def Let_def)

lemma sync_input_resynced:
  "input_sync_ref (fs ! i) \<noteq> - 1 \<Longrightarrow> input_sync_ref (fs ! i) \<noteq> int i \<Longrightarrow>
   input_sync_ref (fs ! i) < int (length fs) \<Longrightarrow> - 1 \<le> input_sync_ref (fs ! i) \<Longrightarrow>
   copy_ts g = 0 \<or> start_at_zero g \<noteq> 0 \<Longrightarrow>
   input_sync_ref (fs ! nat (input_sync_ref (fs ! i))) \<noteq> - 1 \<Longrightarrow>
   input_sync_ref (fs ! nat (input_sync_ref (fs ! i))) \<noteq> input_sync_ref (fs ! i) \<Longrightarrow>
   sync_input g fs i =
     ([(AV_LOG_ERROR, Resynced_input i (input_sync_ref (fs ! i)))], Inr fs)"
  by (simp add: sync_input_def Let_def)

lemma sync_input_no_start_times:
  "input_sync_ref (fs ! i) \<noteq> - 1 \<Longrightarrow> input_sync_ref (fs ! i) \<noteq> int i \<Longrightarrow>
   input_sync_ref (fs ! i) < int (length fs) \<Longrightarrow> - 1 \<le> input_sync_ref (fs ! i) \<Longrightarrow>
   copy_ts g = 0 \<or> start_at_zero g \<noteq> 0 \<Longrightarrow>
   input_sync_ref (fs ! nat (input_sync_ref (fs ! i))) = - 1 \<or>
   input_sync_ref (fs ! nat (input_sync_ref (fs ! i))) = input_sync_ref (fs ! i) \<Longrightarrow>
   sync_start_times (fs ! i) (fs ! nat (input_sync_ref (fs ! i))) = None \<Longrightarrow>
   sync_input g fs i =
     ([(AV_LOG_INFO, No_start_times i (input_sync_ref (fs ! i)))], Inr fs)"
  by (simp add: sync_input_def Let_def)

lemma sync_input_adjusted:
  "input_sync_ref (fs ! i) \<noteq> - 1 \<Longrightarrow> input_sync_ref (fs ! i) \<noteq> int i \<Longrightarrow>
   input_sync_ref (fs ! i) < int (length fs) \<Longrightarrow> - 1 \<le> input_sync_ref (fs ! i) \<Longrightarrow>
   copy_ts g = 0 \<or> start_at_zero g \<noteq> 0 \<Longrightarrow>
   input_sync_ref (fs ! nat (input_sync_ref (fs ! i))) = - 1 \<or>
   input_sync_ref (fs ! nat (input_sync_ref (fs ! i))) = input_sync_ref (fs ! i) \<Longrightarrow>
   sync_start_times (fs ! i) (fs ! nat (input_sync_ref (fs ! i))) = Some (a, b) \<Longrightarrow>
   adj = (a - b) +
      (if copy_ts g = 0 then 1 else 0) *
        ((if start_time (fs ! i) = AV_NOPTS_VALUE then 0 else start_time (fs ! i)) -
         (if start_time (fs ! nat (input_sync_ref (fs ! i))) = AV_NOPTS_VALUE then 0
          else start_time (fs ! nat (input_sync_ref (fs ! i))))) +
      input_ts_offset (fs ! nat (input_sync_ref (fs ! i))) \<Longrightarrow>
   sync_input g fs i =
     ([(AV_LOG_INFO, Adjusted_ts_offset i adj (input_sync_ref (fs ! i)))],
      Inr (fs[i := (fs ! i)\<lparr>ts_offset := ts_offset (fs ! i) + adj\<rparr>]))"
  by (simp add: sync_input_def Let_def)

lemma same_config_refl: "same_config fs fs"
  by (simp add: same_config_def)

lemma same_config_fields:
  assumes "same_config fs cur" "j < length fs"
  shows "input_sync_ref (cur ! j) = input_sync_ref (fs ! j)"
    and "ctx (cur ! j) = ctx (fs ! j)"
    and "start_time (cur ! j) = start_time (fs ! j)"
    and "start_time_effective (cur ! j) = start_time_effective (fs ! j)"
    and "input_ts_offset (cur ! j) = input_ts_offset (fs ! j)"
proof -
  from assms have e: "cur ! j = (fs ! j)\<lparr>ts_offset := ts_offset (cur ! j)\<rparr>"
    by (simp add: same_config_def)
  show "input_sync_ref (cur ! j) = input_sync_ref (fs ! j)" by (subst e) simp
  show "ctx (cur ! j) = ctx (fs ! j)" by (subst e) simp
  show "start_time (cur ! j) = start_time (fs ! j)" by (subst e) simp
  show "start_time_effective (cur ! j) = start_time_effective (fs ! j)" by (subst e) simp
  show "input_ts_offset (cur ! j) = input_ts_offset (fs ! j)" by (subst e) simp
qed

lemma same_config_update:
  assumes "same_config fs cur" "i < length fs"
  shows "same_config fs (cur[i := (fs ! i)\<lparr>ts_offset := t\<rparr>])"
  using assms by (auto simp: same_config_def nth_list_update)

lemma sync_start_times_cong:
  assumes "ctx s' = ctx s" "start_time_effective s' = start_time_effective s"
    "ctx r' = ctx r" "start_time_effective r' = start_time_effective r"
  shows "sync_start_times s' r' = sync_start_times s r"
  using assms by (simp add: sync_start_times_def)

lemma sync_input_cong:
  assumes sc: "same_config fs cur" and i: "i < length fs" and eq: "cur ! i = fs ! i"
  shows "sync_input g cur i =
          (fst (sync_input g fs i),
           case snd (sync_input g fs i) of
             Inl e \<Rightarrow> Inl e | Inr fs' \<Rightarrow> Inr (cur[i := fs' ! i]))"
proof -
  define r where "r = input_sync_ref (fs ! i)"
  have len: "length cur = length fs" using sc by (simp add: same_config_def)
  have rc: "input_sync_ref (cur ! i) = r" by (simp add: eq r_def)
  have rf: "input_sync_ref (fs ! i) = r" by (simp add: r_def)
  have id: "cur[i := fs ! i] = cur" using eq by (metis list_update_id)
  consider (none) "r = - 1 \<or> r = int i"
    | (range) "r \<noteq> - 1" "r \<noteq> int i" "r \<ge> int (length fs) \<or> r < - 1"
    | (ok) "r \<noteq> - 1" "r \<noteq> int i" "r < int (length fs)" "- 1 \<le> r"
    by linarith
  then show ?thesis
  proof cases
    case none
    then show ?thesis
      using sync_input_no_ref[of fs i g] sync_input_no_ref[of cur i g] rc rf id by simp
  next
    case range
    then show ?thesis
      using sync_input_nonexistent[of fs i g] sync_input_nonexistent[of cur i g] rc rf len
      by simp
  next
    case ok
    then have n: "nat r < length fs" by linarith
    note f = same_config_fields[OF sc n]
    have st: "sync_start_times (cur ! i) (cur ! nat r) = sync_start_times (fs ! i) (fs ! nat r)"
      by (rule sync_start_times_cong) (simp_all add: f eq)
    show ?thesis
    proof (cases "copy_ts g \<noteq> 0 \<and> start_at_zero g = 0")
      case True
      then show ?thesis
        using ok sync_input_flags[of fs i g] sync_input_flags[of cur i g] rc rf len by simp
    next
      case fl: False
      show ?thesis
      proof (cases "input_sync_ref (fs ! nat r) \<noteq> - 1 \<and> input_sync_ref (fs ! nat r) \<noteq> r")
        case True
        then show ?thesis
          using ok fl sync_input_resynced[of fs i g] sync_input_resynced[of cur i g]
            rc rf len f(1) id by simp
      next
        case ch: False
        show ?thesis
        proof (cases "sync_start_times (fs ! i) (fs ! nat r)")
          case None
          then show ?thesis
            using ok fl ch st sync_input_no_start_times[of fs i g]
              sync_input_no_start_times[of cur i g] rc rf len f(1) id by simp
        next
          case (Some p)
          obtain a b where p: "p = (a, b)" by (cases p)
          show ?thesis
            using ok fl ch st Some p i
              sync_input_adjusted[of fs i g a b, OF _ _ _ _ _ _ _ refl]
              sync_input_adjusted[of cur i g a b, OF _ _ _ _ _ _ _ refl]
              rc rf len f(1) f(3) f(5) eq by simp
        qed
      qed
    qed
  qed
qed

lemma sync_input_cases:
  fixes g fs i
  defines "r \<equiv> input_sync_ref (fs ! i)"
  obtains
    (no_ref) "r = - 1 \<or> r = int i" "sync_input g fs i = ([], Inr fs)"
  | (nonexistent) "r \<noteq> - 1" "r \<noteq> int i" "r \<ge> int (length fs) \<or> r < - 1"
      "sync_input g fs i = ([(AV_LOG_FATAL, Nonexistent_input i r)], Inl EINVAL)"
  | (flags) "r \<noteq> - 1" "r \<noteq> int i" "0 \<le> r" "r < int (length fs)"
      "copy_ts g \<noteq> 0" "start_at_zero g = 0"
      "sync_input g fs i = ([(AV_LOG_FATAL, Requires_start_at_zero)], Inl EINVAL)"
  | (resynced) "r \<noteq> - 1" "r \<noteq> int i" "0 \<le> r" "r < int (length fs)"
      "copy_ts g = 0 \<or> start_at_zero g \<noteq> 0"
      "input_sync_ref (fs ! nat r) \<noteq> - 1" "input_sync_ref (fs ! nat r) \<noteq> r"
      "sync_input g fs i = ([(AV_LOG_ERROR, Resynced_input i r)], Inr fs)"
  | (no_start_times) "r \<noteq> - 1" "r \<noteq> int i" "0 \<le> r" "r < int (length fs)"
      "copy_ts g = 0 \<or> start_at_zero g \<noteq> 0"
      "input_sync_ref (fs ! nat r) = - 1 \<or> input_sync_ref (fs ! nat r) = r"
      "sync_start_times (fs ! i) (fs ! nat r) = None"
      "sync_input g fs i = ([(AV_LOG_INFO, No_start_times i r)], Inr fs)"
  | (adjusted) a b adj where "r \<noteq> - 1" "r \<noteq> int i" "0 \<le> r" "r < int (length fs)"
      "copy_ts g = 0 \<or> start_at_zero g \<noteq> 0"
      "input_sync_ref (fs ! nat r) = - 1 \<or> input_sync_ref (fs ! nat r) = r"
      "sync_start_times (fs ! i) (fs ! nat r) = Some (a, b)"
      "adj = (a - b) +
         (if copy_ts g = 0 then 1 else 0) *
           ((if start_time (fs ! i) = AV_NOPTS_VALUE then 0 else start_time (fs ! i)) -
            (if start_time (fs ! nat r) = AV_NOPTS_VALUE then 0 else start_time (fs ! nat r))) +
         input_ts_offset (fs ! nat r)"
      "sync_input g fs i =
         ([(AV_LOG_INFO, Adjusted_ts_offset i adj r)],
          Inr (fs[i := (fs ! i)\<lparr>ts_offset := ts_offset (fs ! i) + adj\<rparr>]))"
proof -
  consider (a) "r = - 1 \<or> r = int i"
    | (b) "r \<noteq> - 1" "r \<noteq> int i" "r \<ge> int (length fs) \<or> r < - 1"
    | (c) "r \<noteq> - 1" "r \<noteq> int i" "0 \<le> r" "r < int (length fs)"
    by linarith
  then show thesis
  proof cases
    case a
    then show thesis using no_ref sync_input_no_ref[of fs i g] by (simp add: r_def)
  next
    case b
    then show thesis using nonexistent sync_input_nonexistent[of fs i g] by (simp add: r_def)
  next
    case c
    show thesis
    proof (cases "copy_ts g \<noteq> 0 \<and> start_at_zero g = 0")
      case True
      then show thesis using c flags sync_input_flags[of fs i g] by (simp add: r_def)
    next
      case fl: False
      show thesis
      proof (cases "input_sync_ref (fs ! nat r) \<noteq> - 1 \<and> input_sync_ref (fs ! nat r) \<noteq> r")
        case True
        then show thesis
          using c fl resynced sync_input_resynced[of fs i g] by (simp add: r_def)
      next
        case ch: False
        show thesis
        proof (cases "sync_start_times (fs ! i) (fs ! nat r)")
          case None
          then show thesis
            using c fl ch no_start_times sync_input_no_start_times[of fs i g]
            by (simp add: r_def)
        next
          case (Some p)
          obtain a b where p: "p = (a, b)" by (cases p)
          show thesis
            using c fl ch Some p adjusted[of a b, OF _ _ _ _ _ _ _ refl]
              sync_input_adjusted[of fs i g a b, OF _ _ _ _ _ _ _ refl]
            by (simp add: r_def)
        qed
      qed
    qed
  qed
qed

lemma sync_input_Inr:
  assumes "i < length fs" "snd (sync_input g fs i) = Inr fs'"
  shows "\<exists>t. fs' = fs[i := (fs ! i)\<lparr>ts_offset := t\<rparr>]"
proof (cases rule: sync_input_cases[of fs i g])
  case no_ref
  then have "fs' = fs[i := (fs ! i)\<lparr>ts_offset := ts_offset (fs ! i)\<rparr>]" using assms by simp
  then show ?thesis ..
next
  case nonexistent
  then show ?thesis using assms by simp
next
  case flags
  then show ?thesis using assms by simp
next
  case resynced
  then have "fs' = fs[i := (fs ! i)\<lparr>ts_offset := ts_offset (fs ! i)\<rparr>]" using assms by simp
  then show ?thesis ..
next
  case no_start_times
  then have "fs' = fs[i := (fs ! i)\<lparr>ts_offset := ts_offset (fs ! i)\<rparr>]" using assms by simp
  then show ?thesis ..
next
  case (adjusted a b adj)
  then have "fs' = fs[i := (fs ! i)\<lparr>ts_offset := ts_offset (fs ! i) + adj\<rparr>]"
    using assms by simp
  then show ?thesis ..
qed

lemma error_is_EINVAL: "(e :: error) = EINVAL"
  by (cases e) simp

lemma sync_loop_upt:
  assumes "same_config fs cur"
    and "\<forall>j. k \<le> j \<and> j < length fs \<longrightarrow> cur ! j = fs ! j"
    and "k \<le> length fs"
    and "res = sync_loop g cur lg [k ..< length fs]"
  shows "same_config fs (fst (snd res)) \<and>
    (fst res = Inl EINVAL \<longleftrightarrow>
       (\<exists>j. k \<le> j \<and> j < length fs \<and> snd (sync_input g fs j) = Inl EINVAL)) \<and>
    (\<forall>i < k. fst (snd res) ! i = cur ! i) \<and>
    (\<forall>i. k \<le> i \<and> i < length fs \<and>
         (\<exists>j. k \<le> j \<and> j \<le> i \<and> snd (sync_input g fs j) = Inl EINVAL) \<longrightarrow>
         fst (snd res) ! i = fs ! i) \<and>
    (\<forall>i. k \<le> i \<and> i < length fs \<and>
         (\<forall>j. k \<le> j \<and> j \<le> i \<longrightarrow> snd (sync_input g fs j) \<noteq> Inl EINVAL) \<longrightarrow>
         (\<exists>fs'. snd (sync_input g fs i) = Inr fs' \<and> fst (snd res) ! i = fs' ! i)) \<and>
    ((\<forall>j. k \<le> j \<and> j < length fs \<longrightarrow> snd (sync_input g fs j) \<noteq> Inl EINVAL) \<longrightarrow>
       snd (snd res) = lg @ concat (map (\<lambda>j. fst (sync_input g fs j)) [k ..< length fs]))"
  using assms
proof (induction "length fs - k" arbitrary: k cur lg res)
  case 0
  then have "k = length fs" by simp
  then have "res = (Inr (), cur, lg)" using 0 by simp
  then show ?case using 0 \<open>k = length fs\<close> by auto
next
  case (Suc m)
  then have k: "k < length fs" by linarith
  have upt: "[k ..< length fs] = k # [Suc k ..< length fs]" using k by (rule upt_conv_Cons)
  have eqk: "cur ! k = fs ! k" using Suc.prems(2) k by simp
  have len: "length cur = length fs" using Suc.prems(1) by (simp add: same_config_def)
  note cong = sync_input_cong[OF Suc.prems(1) k eqk, of g]
  show ?case
  proof (cases "snd (sync_input g fs k)")
    case (Inl e)
    then have fat: "snd (sync_input g fs k) = Inl EINVAL" by (simp add: error_is_EINVAL[of e])
    have res: "res = (Inl EINVAL, cur, lg @ fst (sync_input g fs k))"
      using Suc.prems(4) upt cong fat by simp
    have a: "same_config fs (fst (snd res))" using res Suc.prems(1) by simp
    have b: "fst res = Inl EINVAL \<longleftrightarrow>
       (\<exists>j. k \<le> j \<and> j < length fs \<and> snd (sync_input g fs j) = Inl EINVAL)"
      using res fat k by auto
    have c: "\<forall>i < k. fst (snd res) ! i = cur ! i" using res by simp
    have d: "\<forall>i. k \<le> i \<and> i < length fs \<and>
         (\<exists>j. k \<le> j \<and> j \<le> i \<and> snd (sync_input g fs j) = Inl EINVAL) \<longrightarrow>
         fst (snd res) ! i = fs ! i"
      using res Suc.prems(2) by simp
    have e: "\<forall>i. k \<le> i \<and> i < length fs \<and>
         (\<forall>j. k \<le> j \<and> j \<le> i \<longrightarrow> snd (sync_input g fs j) \<noteq> Inl EINVAL) \<longrightarrow>
         (\<exists>fs'. snd (sync_input g fs i) = Inr fs' \<and> fst (snd res) ! i = fs' ! i)"
      using fat by auto
    have f: "(\<forall>j. k \<le> j \<and> j < length fs \<longrightarrow> snd (sync_input g fs j) \<noteq> Inl EINVAL) \<longrightarrow>
       snd (snd res) = lg @ concat (map (\<lambda>j. fst (sync_input g fs j)) [k ..< length fs])"
      using fat k by auto
    show ?thesis using a b c d e f by blast
  next
    case (Inr fsk)
    obtain t where fsk: "fsk = fs[k := (fs ! k)\<lparr>ts_offset := t\<rparr>]"
      using sync_input_Inr[OF k Inr] by blast
    have fskk: "fsk ! k = (fs ! k)\<lparr>ts_offset := t\<rparr>" using fsk k by simp
    define cur' where "cur' = cur[k := fsk ! k]"
    define lg' where "lg' = lg @ fst (sync_input g fs k)"
    have res: "res = sync_loop g cur' lg' [Suc k ..< length fs]"
      using Suc.prems(4) upt cong Inr by (simp add: cur'_def lg'_def)
    have sc': "same_config fs cur'"
      unfolding cur'_def fskk by (rule same_config_update[OF Suc.prems(1) k])
    have eq': "\<forall>j. Suc k \<le> j \<and> j < length fs \<longrightarrow> cur' ! j = fs ! j"
      using Suc.prems(2) by (simp add: cur'_def)
    have m: "m = length fs - Suc k" using Suc.hyps(2) by linarith
    have sk: "Suc k \<le> length fs" using k by simp
    note IH = Suc.hyps(1)[OF m sc' eq' sk res]
    have nf: "snd (sync_input g fs k) \<noteq> Inl EINVAL" using Inr by simp
    have split_ex: "\<And>P. (\<exists>j. k \<le> j \<and> P j) \<longleftrightarrow> P k \<or> (\<exists>j. Suc k \<le> j \<and> P j)"
      by (metis Suc_leD Suc_le_eq le_refl nat_less_le)
    have split_all: "\<And>P. (\<forall>j. k \<le> j \<longrightarrow> P j) \<longleftrightarrow> P k \<and> (\<forall>j. Suc k \<le> j \<longrightarrow> P j)"
      by (metis Suc_leD Suc_le_eq le_refl nat_less_le)
    have a: "same_config fs (fst (snd res))" using IH by blast
    have b: "fst res = Inl EINVAL \<longleftrightarrow>
       (\<exists>j. k \<le> j \<and> j < length fs \<and> snd (sync_input g fs j) = Inl EINVAL)"
      using IH nf split_ex[of "\<lambda>j. j < length fs \<and> snd (sync_input g fs j) = Inl EINVAL"]
      by blast
    have lk: "fst (snd res) ! k = fsk ! k"
    proof -
      have "fst (snd res) ! k = cur' ! k" using IH by simp
      then show ?thesis using k len by (simp add: cur'_def)
    qed
    have c: "\<forall>i < k. fst (snd res) ! i = cur ! i"
    proof (intro allI impI)
      fix i assume "i < k"
      then have "fst (snd res) ! i = cur' ! i" using IH by simp
      then show "fst (snd res) ! i = cur ! i" using \<open>i < k\<close> by (simp add: cur'_def)
    qed
    have d: "\<forall>i. k \<le> i \<and> i < length fs \<and>
         (\<exists>j. k \<le> j \<and> j \<le> i \<and> snd (sync_input g fs j) = Inl EINVAL) \<longrightarrow>
         fst (snd res) ! i = fs ! i"
    proof (intro allI impI)
      fix i
      assume h: "k \<le> i \<and> i < length fs \<and>
         (\<exists>j. k \<le> j \<and> j \<le> i \<and> snd (sync_input g fs j) = Inl EINVAL)"
      then obtain j where j: "k \<le> j" "j \<le> i" "snd (sync_input g fs j) = Inl EINVAL" by blast
      then have "j \<noteq> k" using nf by auto
      then have "Suc k \<le> j" using j by simp
      then have "Suc k \<le> i \<and> i < length fs \<and>
         (\<exists>j. Suc k \<le> j \<and> j \<le> i \<and> snd (sync_input g fs j) = Inl EINVAL)"
        using j h by auto
      then show "fst (snd res) ! i = fs ! i" using IH by blast
    qed
    have e: "\<forall>i. k \<le> i \<and> i < length fs \<and>
         (\<forall>j. k \<le> j \<and> j \<le> i \<longrightarrow> snd (sync_input g fs j) \<noteq> Inl EINVAL) \<longrightarrow>
         (\<exists>fs'. snd (sync_input g fs i) = Inr fs' \<and> fst (snd res) ! i = fs' ! i)"
    proof (intro allI impI)
      fix i
      assume h: "k \<le> i \<and> i < length fs \<and>
         (\<forall>j. k \<le> j \<and> j \<le> i \<longrightarrow> snd (sync_input g fs j) \<noteq> Inl EINVAL)"
      show "\<exists>fs'. snd (sync_input g fs i) = Inr fs' \<and> fst (snd res) ! i = fs' ! i"
      proof (cases "i = k")
        case True
        then show ?thesis using Inr lk by simp
      next
        case False
        then have "Suc k \<le> i \<and> i < length fs \<and>
          (\<forall>j. Suc k \<le> j \<and> j \<le> i \<longrightarrow> snd (sync_input g fs j) \<noteq> Inl EINVAL)"
          using h by auto
        then show ?thesis using IH by blast
      qed
    qed
    have f: "(\<forall>j. k \<le> j \<and> j < length fs \<longrightarrow> snd (sync_input g fs j) \<noteq> Inl EINVAL) \<longrightarrow>
       snd (snd res) = lg @ concat (map (\<lambda>j. fst (sync_input g fs j)) [k ..< length fs])"
    proof
      assume h: "\<forall>j. k \<le> j \<and> j < length fs \<longrightarrow> snd (sync_input g fs j) \<noteq> Inl EINVAL"
      then have "\<forall>j. Suc k \<le> j \<and> j < length fs \<longrightarrow> snd (sync_input g fs j) \<noteq> Inl EINVAL"
        by auto
      then have "snd (snd res) =
          lg' @ concat (map (\<lambda>j. fst (sync_input g fs j)) [Suc k ..< length fs])"
        using IH by blast
      then show "snd (snd res) =
          lg @ concat (map (\<lambda>j. fst (sync_input g fs j)) [k ..< length fs])"
        by (simp add: lg'_def upt)
    qed
    show ?thesis using a b c d e f by blast
  qed
qed

section \<open>The synchronizer as a whole\<close>

lemma sync_input_fatal_iff: "snd (sync_input g fs i) = Inl EINVAL \<longleftrightarrow> sync_fatal g fs i"
  by (cases rule: sync_input_cases[of fs i g])
    (auto simp: sync_fatal_def active_ref_def ref_out_of_range_def)

lemma apply_sync_offsets_ret:
  "ret_of (apply_sync_offsets g fs) = Inl EINVAL \<longleftrightarrow> (\<exists>j < length fs. sync_fatal g fs j)"
  using sync_loop_upt[OF same_config_refl, of 0 fs _ g "[]", OF _ _ refl]
  by (simp add: apply_sync_offsets_def sync_input_fatal_iff)

lemma apply_sync_offsets_success:
  "ret_of (apply_sync_offsets g fs) = Inr () \<longleftrightarrow> (\<forall>j < length fs. \<not> sync_fatal g fs j)"
proof -
  have "ret_of (apply_sync_offsets g fs) = Inr () \<longleftrightarrow>
        ret_of (apply_sync_offsets g fs) \<noteq> Inl EINVAL"
    by (cases "ret_of (apply_sync_offsets g fs)") (simp_all add: error_is_EINVAL)
  then show ?thesis by (simp add: apply_sync_offsets_ret)
qed

lemma apply_sync_offsets_same_config:
  "same_config fs (files_of (apply_sync_offsets g fs))"
  using sync_loop_upt[OF same_config_refl, of 0 fs _ g "[]", OF _ _ refl]
  by (simp add: apply_sync_offsets_def)

lemma apply_sync_offsets_after_fatal:
  assumes "i < length fs" "j \<le> i" "sync_fatal g fs j"
  shows "files_of (apply_sync_offsets g fs) ! i = fs ! i"
proof -
  have "\<exists>j. 0 \<le> j \<and> j \<le> i \<and> snd (sync_input g fs j) = Inl EINVAL"
    using assms by (auto simp: sync_input_fatal_iff)
  then show ?thesis
    using sync_loop_upt[OF same_config_refl, of 0 fs _ g "[]", OF _ _ refl] assms(1)
    unfolding apply_sync_offsets_def by blast
qed

lemma apply_sync_offsets_before_fatal:
  assumes "i < length fs" "\<forall>j \<le> i. \<not> sync_fatal g fs j"
  shows "\<exists>fs'. snd (sync_input g fs i) = Inr fs' \<and>
               files_of (apply_sync_offsets g fs) ! i = fs' ! i"
proof -
  have "\<forall>j. 0 \<le> j \<and> j \<le> i \<longrightarrow> snd (sync_input g fs j) \<noteq> Inl EINVAL"
    using assms by (simp add: sync_input_fatal_iff)
  then show ?thesis
    using sync_loop_upt[OF same_config_refl, of 0 fs _ g "[]", OF _ _ refl] assms(1)
    unfolding apply_sync_offsets_def by blast
qed

lemma apply_sync_offsets_log:
  assumes "\<forall>j < length fs. \<not> sync_fatal g fs j"
  shows "log_of (apply_sync_offsets g fs) =
           concat (map (\<lambda>j. fst (sync_input g fs j)) [0 ..< length fs])"
proof -
  have "\<forall>j. 0 \<le> j \<and> j < length fs \<longrightarrow> snd (sync_input g fs j) \<noteq> Inl EINVAL"
    using assms by (simp add: sync_input_fatal_iff)
  then show ?thesis
    using sync_loop_upt[OF same_config_refl, of 0 fs _ g "[]", OF _ _ refl]
    unfolding apply_sync_offsets_def by simp
qed

lemma apply_sync_offsets_unchanged:
  assumes "i < length fs" "snd (sync_input g fs i) = Inr fs"
  shows "files_of (apply_sync_offsets g fs) ! i = fs ! i"
proof (cases "\<exists>j \<le> i. sync_fatal g fs j")
  case True
  then show ?thesis using apply_sync_offsets_after_fatal[OF assms(1)] by blast
next
  case False
  then show ?thesis using apply_sync_offsets_before_fatal[OF assms(1), of g] assms(2) by auto
qed

section \<open>Further facts used by the claims\<close>

lemma correct_input_file_effective:
  assumes "ctx_start_time (ctx f) \<noteq> AV_NOPTS_VALUE"
    and "iformat_flags (ctx f) AND AVFMT_TS_DISCONT \<noteq> 0"
  shows "start_time_effective (correct_input_file rescale g f) =
         stream_loop rescale (streams (ctx f)) INT64_MAX"
proof (cases "stream_loop rescale (streams (ctx f)) INT64_MAX = ctx_start_time (ctx f)")
  case True
  then show ?thesis using assms by (simp add: correct_input_file_same)
next
  case False
  then show ?thesis using correct_input_file_diff[OF assms refl, of rescale g] by simp
qed

lemma no_eligible_stream_INT64_MAX:
  assumes "iformat_flags (ctx f) AND AVFMT_TS_DISCONT \<noteq> 0"
    and "ctx_start_time (ctx f) \<noteq> AV_NOPTS_VALUE"
    and "stream_starts rescale (streams (ctx f)) = []"
  shows "start_time_effective (correct_input_file rescale g f) = INT64_MAX"
  using correct_input_file_effective[OF assms(2,1)] stream_loop_no_eligible[OF assms(3)]
  by simp

lemma apply_sync_offsets_adjusted:
  assumes i: "i < length fs" and r: "r = input_sync_ref (fs ! i)"
    and range: "0 \<le> r" "r < int (length fs)" and self: "r \<noteq> int i"
    and nf: "\<forall>j \<le> i. \<not> sync_fatal g fs j"
    and ch: "input_sync_ref (fs ! nat r) = - 1 \<or> input_sync_ref (fs ! nat r) = r"
    and st: "sync_start_times (fs ! i) (fs ! nat r) = Some (a, b)"
  shows "ts_offset (files_of (apply_sync_offsets g fs) ! i) =
         ts_offset (fs ! i) +
         ((a - b) +
          (if copy_ts g \<noteq> 0 then 0 else 1) * (seek_start (fs ! i) - seek_start (fs ! nat r)) +
          input_ts_offset (fs ! nat r))"
proof -
  have "\<not> sync_fatal g fs i" using nf by simp
  then have fl: "copy_ts g = 0 \<or> start_at_zero g \<noteq> 0"
    using r range self by (auto simp: sync_fatal_def active_ref_def)
  define adj where "adj = (a - b) +
      (if copy_ts g = 0 then 1 else 0) *
        ((if start_time (fs ! i) = AV_NOPTS_VALUE then 0 else start_time (fs ! i)) -
         (if start_time (fs ! nat (input_sync_ref (fs ! i))) = AV_NOPTS_VALUE then 0
          else start_time (fs ! nat (input_sync_ref (fs ! i))))) +
      input_ts_offset (fs ! nat (input_sync_ref (fs ! i)))"
  have body: "sync_input g fs i =
     ([(AV_LOG_INFO, Adjusted_ts_offset i adj (input_sync_ref (fs ! i)))],
      Inr (fs[i := (fs ! i)\<lparr>ts_offset := ts_offset (fs ! i) + adj\<rparr>]))"
    using r range self fl ch st
    by (intro sync_input_adjusted[where a = a and b = b]) (simp_all add: adj_def)
  obtain fs' where fs': "snd (sync_input g fs i) = Inr fs'"
      "files_of (apply_sync_offsets g fs) ! i = fs' ! i"
    using apply_sync_offsets_before_fatal[OF i nf] by blast
  have "fs' = fs[i := (fs ! i)\<lparr>ts_offset := ts_offset (fs ! i) + adj\<rparr>]"
    using fs'(1) body by simp
  then have "ts_offset (files_of (apply_sync_offsets g fs) ! i) = ts_offset (fs ! i) + adj"
    using fs'(2) i by simp
  then show ?thesis using r by (simp add: adj_def seek_start_def)
qed

lemma all_le_1: "P 0 \<Longrightarrow> P 1 \<Longrightarrow> \<forall>j \<le> (1::nat). P j"
  by (auto simp: le_Suc_eq)

lemma all_less_2: "P 0 \<Longrightarrow> P 1 \<Longrightarrow> \<forall>j < (2::nat). P j"
  by (auto simp: less_Suc_eq numeral_2_eq_2)

section \<open>The claims about the Cross-Input Synchronizer and the Start-Time Corrector\<close>

subsection \<open>C1: the adjustment added to a synchronised input\<close>

text \<open>
  The claim takes the last term of the adjustment to be the \<open>ts_offset\<close> of the referenced
  input, the field the first pass writes. The code reads \<^verbatim>\<open>ref->input_ts_offset\<close>, the
  offset the user supplied. On the example registry the two differ: the first pass has set
  the \<open>ts_offset\<close> of input 0 to \<open>-1000000\<close> while its \<open>input_ts_offset\<close> is 0, and the
  synchronizer adds 200000 to input 1, not \<open>200000 - 1000000\<close>.
\<close>

theorem sync_adjustment_uses_input_ts_offset:
  "input_sync_ref (ex_registry ! 1) = 0 \<and>
   sync_start_times (ex_registry ! 1) (ex_registry ! 0) = Some (1200000, 1000000) \<and>
   copy_ts ex_globals = 0 \<and>
   seek_start (ex_registry ! 1) = 0 \<and> seek_start (ex_registry ! 0) = 0 \<and>
   ts_offset (ex_registry ! 0) = - 1000000 \<and> input_ts_offset (ex_registry ! 0) = 0 \<and>
   ts_offset (ex_registry ! 1) = 0 \<and>
   ts_offset (files_of (apply_sync_offsets ex_globals ex_registry) ! 1) = 200000 \<and>
   ts_offset (files_of (apply_sync_offsets ex_globals ex_registry) ! 1) \<noteq>
     ts_offset (ex_registry ! 1) +
     ((1200000 - 1000000) + 1 * (seek_start (ex_registry ! 1) - seek_start (ex_registry ! 0)) +
      ts_offset (ex_registry ! 0))"
  by code_simp

text \<open>
  Claim C1, as the code has it. Let input \<open>i\<close> name another input \<open>r\<close> that is in range and
  is not itself synchronised with a third input, let the pair have comparable start times
  \<open>self_start\<close> and \<open>ref_start\<close>, and let no fatal condition arise at \<open>i\<close> or at an earlier
  input. Then the synchronizer adds to the \<open>ts_offset\<close> of \<open>i\<close> exactly
  \<open>(self_start - ref_start) + (copy_ts ? 0 : 1) * (self_seek_start - ref_seek_start) +
  input_ts_offset ref\<close>, where the last term is the offset the user supplied for \<open>r\<close>.
\<close>

theorem sync_adjustment_added:
  assumes "i < length fs" and "r = input_sync_ref (fs ! i)"
    and "0 \<le> r" "r < int (length fs)" and "r \<noteq> int i"
    and "\<forall>j \<le> i. \<not> sync_fatal g fs j"
    and "input_sync_ref (fs ! nat r) = - 1 \<or> input_sync_ref (fs ! nat r) = r"
    and "sync_start_times (fs ! i) (fs ! nat r) = Some (self_start, ref_start)"
  shows "ts_offset (files_of (apply_sync_offsets g fs) ! i) =
         ts_offset (fs ! i) +
         ((self_start - ref_start) +
          (if copy_ts g \<noteq> 0 then 0 else 1) * (seek_start (fs ! i) - seek_start (fs ! nat r)) +
          input_ts_offset (fs ! nat r))"
  using assms by (rule apply_sync_offsets_adjusted)

theorem sync_adjustment_added_witness:
  "input_sync_ref (ex_registry ! 1) = 0 \<and>
   sync_start_times (ex_registry ! 1) (ex_registry ! 0) = Some (1200000, 1000000) \<and>
   ts_offset (files_of (apply_sync_offsets ex_globals ex_registry) ! 1) =
     ts_offset (ex_registry ! 1) + 200000"
proof -
  have h1: "1 < length ex_registry" by code_simp
  have h2: "0 = input_sync_ref (ex_registry ! 1)" by code_simp
  have h3: "(0::int) \<le> 0" by simp
  have h4: "0 < int (length ex_registry)" by code_simp
  have h5: "0 \<noteq> int 1" by simp
  have h6: "\<forall>j \<le> 1. \<not> sync_fatal ex_globals ex_registry j"
    by (rule all_le_1) code_simp+
  have h7: "input_sync_ref (ex_registry ! nat 0) = - 1 \<or> input_sync_ref (ex_registry ! nat 0) = 0"
    by code_simp
  have h8: "sync_start_times (ex_registry ! 1) (ex_registry ! nat 0) = Some (1200000, 1000000)"
    by code_simp
  have v: "seek_start (ex_registry ! 1) = 0" "seek_start (ex_registry ! 0) = 0"
    "input_ts_offset (ex_registry ! 0) = 0" "copy_ts ex_globals = 0"
    by code_simp+
  from sync_adjustment_added[OF h1 h2 h3 h4 h5 h6 h7 h8]
  have "ts_offset (files_of (apply_sync_offsets ex_globals ex_registry) ! 1) =
     ts_offset (ex_registry ! 1) + 200000"
    by (simp add: v del: One_nat_def)
  then show ?thesis using h2 h8 by (simp del: One_nat_def)
qed

subsection \<open>C2: an input without an eligible stream\<close>

text \<open>
  Claim C2 says that an input whose format allows discontinuous timestamps and whose
  start time is known, but which has no stream that is both kept and has a known start
  time, is left as it was. The code does not do that: the stream loop then leaves
  \<open>new_start_time\<close> at its initial value \<^verbatim>\<open>INT64_MAX\<close>, the difference to the reported start
  time is nonzero, and the body stores \<^verbatim>\<open>INT64_MAX\<close> as the effective start time and
  \<open>-INT64_MAX\<close> plus the user's offset as \<open>ts_offset\<close>. The theorem runs the code on an
  input whose only stream is discarded.
\<close>

theorem unused_input_is_modified:
  "iformat_flags (ctx ex_unused_input) AND AVFMT_TS_DISCONT \<noteq> 0 \<and>
   ctx_start_time (ctx ex_unused_input) \<noteq> AV_NOPTS_VALUE \<and>
   stream_starts av_rescale_q (streams (ctx ex_unused_input)) = [] \<and>
   ctx_start_time (ctx ex_unused_input) = 900000 \<and> ts_offset ex_unused_input = 0 \<and>
   correct_input_start_times av_rescale_q ex_globals [ex_unused_input] =
     [ex_unused_input\<lparr>start_time_effective := 0x7FFFFFFFFFFFFFFF,
                      ts_offset := - 0x7FFFFFFFFFFFFFFF\<rparr>]"
  by code_simp

subsection \<open>C3: a reference to an input that does not exist\<close>

text \<open>
  The claim promises that no \<open>ts_offset\<close> is changed when some input names an index that
  is out of range. The code checks each reference when the loop reaches it, so the inputs
  before the offending one have been synchronised by then: in the example input 0 has
  received its adjustment of 200000 when input 2 makes the function fail.
\<close>

theorem nonexistent_ref_mutates_earlier_input:
  "int (length ex_dangling_registry) \<le> input_sync_ref (ex_dangling_registry ! 2) \<and>
   ret_of (apply_sync_offsets ex_globals ex_dangling_registry) = Inl EINVAL \<and>
   ts_offset (ex_dangling_registry ! 0) = 0 \<and>
   ts_offset (files_of (apply_sync_offsets ex_globals ex_dangling_registry) ! 0) = 200000 \<and>
   ts_offset (files_of (apply_sync_offsets ex_globals ex_dangling_registry) ! 0) \<noteq>
     ts_offset (ex_dangling_registry ! 0)"
  by code_simp

text \<open>
  Claim C3, as the code has it. If the sync reference of input \<open>i\<close> is greater than or equal
  to the number of inputs, the synchronizer returns the error, and the \<open>ts_offset\<close> of \<open>i\<close>
  and of every later input is what it was. The inputs before \<open>i\<close> are not rolled back: one
  that the loop reached before any fatal input holds what the loop body made of it, so
  a synchronised one keeps the adjustment it received; one at or after an earlier fatal
  input is what it was. The registry keeps its length.
\<close>

theorem nonexistent_ref_is_fatal:
  assumes "i < length fs" and "input_sync_ref (fs ! i) \<ge> int (length fs)"
  shows "ret_of (apply_sync_offsets g fs) = Inl EINVAL \<and>
         (\<forall>j. i \<le> j \<and> j < length fs \<longrightarrow>
            ts_offset (files_of (apply_sync_offsets g fs) ! j) = ts_offset (fs ! j)) \<and>
         (\<forall>j < i. (\<forall>k \<le> j. \<not> sync_fatal g fs k) \<longrightarrow>
            (\<exists>fs'. snd (sync_input g fs j) = Inr fs' \<and>
                   files_of (apply_sync_offsets g fs) ! j = fs' ! j)) \<and>
         (\<forall>j < i. (\<exists>k \<le> j. sync_fatal g fs k) \<longrightarrow>
            files_of (apply_sync_offsets g fs) ! j = fs ! j) \<and>
         length (files_of (apply_sync_offsets g fs)) = length fs"
proof -
  have f: "sync_fatal g fs i"
    using assms by (auto simp: sync_fatal_def active_ref_def ref_out_of_range_def)
  then have a: "ret_of (apply_sync_offsets g fs) = Inl EINVAL"
    using assms(1) apply_sync_offsets_ret[of g fs] by blast
  have b: "\<forall>j. i \<le> j \<and> j < length fs \<longrightarrow>
            ts_offset (files_of (apply_sync_offsets g fs) ! j) = ts_offset (fs ! j)"
    using apply_sync_offsets_after_fatal[OF _ _ f] by simp
  have c: "\<forall>j < i. (\<forall>k \<le> j. \<not> sync_fatal g fs k) \<longrightarrow>
            (\<exists>fs'. snd (sync_input g fs j) = Inr fs' \<and>
                   files_of (apply_sync_offsets g fs) ! j = fs' ! j)"
  proof (intro allI impI)
    fix j assume "j < i" and nf: "\<forall>k \<le> j. \<not> sync_fatal g fs k"
    then have "j < length fs" using assms(1) by simp
    then show "\<exists>fs'. snd (sync_input g fs j) = Inr fs' \<and>
                   files_of (apply_sync_offsets g fs) ! j = fs' ! j"
      using nf by (rule apply_sync_offsets_before_fatal)
  qed
  have d: "\<forall>j < i. (\<exists>k \<le> j. sync_fatal g fs k) \<longrightarrow>
            files_of (apply_sync_offsets g fs) ! j = fs ! j"
  proof (intro allI impI)
    fix j assume "j < i" and "\<exists>k \<le> j. sync_fatal g fs k"
    then obtain k where "k \<le> j" "sync_fatal g fs k" and "j < length fs"
      using assms(1) by auto
    then show "files_of (apply_sync_offsets g fs) ! j = fs ! j"
      by (intro apply_sync_offsets_after_fatal)
  qed
  have e: "length (files_of (apply_sync_offsets g fs)) = length fs"
    using apply_sync_offsets_same_config[of fs g] by (simp add: same_config_def)
  show ?thesis using a b c d e by blast
qed

theorem nonexistent_ref_is_fatal_witness:
  "int (length ex_dangling_middle_registry) \<le> input_sync_ref (ex_dangling_middle_registry ! 2) \<and>
   ret_of (apply_sync_offsets ex_globals ex_dangling_middle_registry) = Inl EINVAL \<and>
   ts_offset (ex_dangling_middle_registry ! 0) = 0 \<and>
   ts_offset (files_of (apply_sync_offsets ex_globals ex_dangling_middle_registry) ! 0) = 200000 \<and>
   ts_offset (files_of (apply_sync_offsets ex_globals ex_dangling_middle_registry) ! 2) =
     ts_offset (ex_dangling_middle_registry ! 2) \<and>
   ts_offset (files_of (apply_sync_offsets ex_globals ex_dangling_middle_registry) ! 3) =
     ts_offset (ex_dangling_middle_registry ! 3) \<and>
   length (files_of (apply_sync_offsets ex_globals ex_dangling_middle_registry)) = 4"
proof -
  let ?fs = "ex_dangling_middle_registry"
  have len: "length ?fs = 4" by code_simp
  have h1: "2 < length ?fs" by (simp add: len)
  have h2: "input_sync_ref (?fs ! 2) \<ge> int (length ?fs)" by code_simp
  note t = nonexistent_ref_is_fatal[OF h1 h2, of ex_globals]
  have ret: "ret_of (apply_sync_offsets ex_globals ?fs) = Inl EINVAL"
    using t by (rule conjunct1)
  have later: "\<forall>j. 2 \<le> j \<and> j < length ?fs \<longrightarrow>
      ts_offset (files_of (apply_sync_offsets ex_globals ?fs) ! j) = ts_offset (?fs ! j)"
    using t by blast
  have l2: "ts_offset (files_of (apply_sync_offsets ex_globals ?fs) ! 2) = ts_offset (?fs ! 2)"
    using later[rule_format, of 2] len by simp
  have l3: "ts_offset (files_of (apply_sync_offsets ex_globals ?fs) ! 3) = ts_offset (?fs ! 3)"
    using later[rule_format, of 3] len by simp
  have nf0: "\<forall>k \<le> 0. \<not> sync_fatal ex_globals ?fs k"
  proof -
    have "\<not> sync_fatal ex_globals ?fs 0" by code_simp
    then show ?thesis by simp
  qed
  have earlier: "\<forall>j < 2. (\<forall>k \<le> j. \<not> sync_fatal ex_globals ?fs k) \<longrightarrow>
      (\<exists>fs'. snd (sync_input ex_globals ?fs j) = Inr fs' \<and>
             files_of (apply_sync_offsets ex_globals ?fs) ! j = fs' ! j)"
    using t by blast
  obtain fs' where fs': "snd (sync_input ex_globals ?fs 0) = Inr fs'"
      "files_of (apply_sync_offsets ex_globals ?fs) ! 0 = fs' ! 0"
    using earlier[rule_format, of 0] nf0 by auto
  have body: "snd (sync_input ex_globals ?fs 0) =
      Inr (?fs[0 := (?fs ! 0)\<lparr>ts_offset := 200000\<rparr>])"
    by code_simp
  have val: "ts_offset ((?fs[0 := (?fs ! 0)\<lparr>ts_offset := 200000\<rparr>]) ! 0) = 200000"
    by code_simp
  have l0: "ts_offset (files_of (apply_sync_offsets ex_globals ?fs) ! 0) = 200000"
    using fs' body val by simp
  have before: "ts_offset (?fs ! 0) = 0" by code_simp
  have lenr: "length (files_of (apply_sync_offsets ex_globals ?fs)) = 4"
    using t len by simp
  show ?thesis using h2 ret before l0 l2 l3 lenr by simp
qed

subsection \<open>C4: the timestamp offset of a corrected input\<close>

text \<open>
  Claim C4. For an input whose format allows discontinuous timestamps and whose start
  time is known, let \<open>T\<close> be the start time the stream loop computes, different from the
  reported one. The corrector stores \<open>T\<close> as the effective start time and sets \<open>ts_offset\<close>
  to \<open>-T\<close> when \<^verbatim>\<open>copy_ts\<close> and \<^verbatim>\<open>start_at_zero\<close> are both set, to minus the signed
  maximum of \<open>abs_start_seek\<close> and \<open>T\<close> when \<^verbatim>\<open>copy_ts\<close> is off, where \<open>abs_start_seek\<close> is
  the reported start time plus the start time the user asked for (zero if none), and to 0
  otherwise; in each case the offset the user supplied is added.
\<close>

theorem corrected_ts_offset:
  assumes "i < length fs"
    and "iformat_flags (ctx (fs ! i)) AND AVFMT_TS_DISCONT \<noteq> 0"
    and "ctx_start_time (ctx (fs ! i)) \<noteq> AV_NOPTS_VALUE"
    and "T = stream_loop rescale (streams (ctx (fs ! i))) INT64_MAX"
    and "T - ctx_start_time (ctx (fs ! i)) \<noteq> 0"
    and "abs_start_seek = ctx_start_time (ctx (fs ! i)) + seek_start (fs ! i)"
  shows "start_time_effective (correct_input_start_times rescale g fs ! i) = T \<and>
         ts_offset (correct_input_start_times rescale g fs ! i) =
           (if copy_ts g \<noteq> 0 \<and> start_at_zero g \<noteq> 0 then - T
            else if copy_ts g = 0 then - word_of_int (max (sint abs_start_seek) (sint T))
            else 0) + input_ts_offset (fs ! i)"
proof -
  have ne: "T \<noteq> ctx_start_time (ctx (fs ! i))" using assms(5) by simp
  have seek: "seek_start (fs ! i) =
      (if start_time (fs ! i) \<noteq> AV_NOPTS_VALUE then start_time (fs ! i) else 0)"
    by (simp add: seek_start_def)
  note d = correct_input_file_diff[OF assms(3,2,4) ne, of g, folded seek, folded assms(6)]
  have nth: "correct_input_start_times rescale g fs ! i = correct_input_file rescale g (fs ! i)"
    using assms(1) by (simp add: correct_input_start_times_def)
  show ?thesis unfolding nth d by (simp add: neg_signed_max)
qed

theorem corrected_ts_offset_witness:
  "stream_loop av_rescale_q (streams (ctx ex_ts_input)) INT64_MAX = 1000000 \<and>
   ctx_start_time (ctx ex_ts_input) = 900000 \<and> seek_start ex_ts_input = 0 \<and>
   start_time_effective (correct_input_start_times av_rescale_q ex_globals [ex_ts_input] ! 0) =
     1000000 \<and>
   ts_offset (correct_input_start_times av_rescale_q ex_globals [ex_ts_input] ! 0) = - 1000000"
proof -
  have h1: "0 < length [ex_ts_input]" by simp
  have h2: "iformat_flags (ctx ([ex_ts_input] ! 0)) AND AVFMT_TS_DISCONT \<noteq> 0" by code_simp
  have h3: "ctx_start_time (ctx ([ex_ts_input] ! 0)) \<noteq> AV_NOPTS_VALUE" by code_simp
  have h4: "1000000 = stream_loop av_rescale_q (streams (ctx ([ex_ts_input] ! 0))) INT64_MAX"
    by code_simp
  have h5: "(1000000 :: int64) - ctx_start_time (ctx ([ex_ts_input] ! 0)) \<noteq> 0" by code_simp
  have h6: "900000 = ctx_start_time (ctx ([ex_ts_input] ! 0)) + seek_start ([ex_ts_input] ! 0)"
    by code_simp
  have v: "copy_ts ex_globals = 0" "input_ts_offset ([ex_ts_input] ! 0) = 0"
    "ctx_start_time (ctx ex_ts_input) = 900000" "seek_start ex_ts_input = 0"
    by code_simp+
  have m: "- word_of_int (max (sint (900000 :: int64)) (sint (1000000 :: int64))) =
      (- 1000000 :: int64)"
    by simp
  from corrected_ts_offset[OF h1 h2 h3 h4 h5 h6, of ex_globals] v m h4
  show ?thesis by simp
qed

subsection \<open>C5: the effective start time is the minimum over the eligible streams\<close>

text \<open>
  Claim C5. For an input whose format allows discontinuous timestamps, whose start time is
  known, and which has at least one stream that is not discarded and has a known start
  time, the corrector sets the effective start time to the signed minimum of the rescaled
  start times of these streams.
\<close>

theorem effective_start_is_minimum:
  assumes "i < length fs"
    and "iformat_flags (ctx (fs ! i)) AND AVFMT_TS_DISCONT \<noteq> 0"
    and "ctx_start_time (ctx (fs ! i)) \<noteq> AV_NOPTS_VALUE"
    and "stream_starts rescale (streams (ctx (fs ! i))) \<noteq> []"
  shows "sint (start_time_effective (correct_input_start_times rescale g fs ! i)) =
         Min (sint ` set (stream_starts rescale (streams (ctx (fs ! i)))))"
proof -
  have "start_time_effective (correct_input_start_times rescale g fs ! i) =
        stream_loop rescale (streams (ctx (fs ! i))) INT64_MAX"
    using assms(1-3) by (simp add: correct_input_start_times_def correct_input_file_effective)
  then show ?thesis using stream_loop_Min[OF assms(4)] by simp
qed

theorem effective_start_is_minimum_witness:
  "stream_starts av_rescale_q (streams (ctx ex_multi_input)) = [5000, 2000, 8000] \<and>
   sint (start_time_effective
           (correct_input_start_times av_rescale_q ex_globals [ex_multi_input] ! 0)) = 2000"
proof -
  have h1: "0 < length [ex_multi_input]" by simp
  have h2: "iformat_flags (ctx ([ex_multi_input] ! 0)) AND AVFMT_TS_DISCONT \<noteq> 0"
    by code_simp
  have h3: "ctx_start_time (ctx ([ex_multi_input] ! 0)) \<noteq> AV_NOPTS_VALUE" by code_simp
  have s: "stream_starts av_rescale_q (streams (ctx ([ex_multi_input] ! 0))) = [5000, 2000, 8000]"
    by code_simp
  then have h4: "stream_starts av_rescale_q (streams (ctx ([ex_multi_input] ! 0))) \<noteq> []"
    by simp
  from effective_start_is_minimum[OF h1 h2 h3 h4, of ex_globals] s
  show ?thesis by simp
qed

subsection \<open>C6: when the synchronizer fails\<close>



subsection \<open>C7: the corrector is idempotent\<close>

text \<open>
  Claim C7. Running the corrector on a registry it has already corrected changes nothing:
  it reads only fields it never writes, so the second pass stores the same values again.
\<close>

theorem corrector_idempotent:
  "correct_input_start_times rescale g (correct_input_start_times rescale g fs) =
   correct_input_start_times rescale g fs"
  by (simp add: correct_input_start_times_def correct_input_file_idem)

theorem corrector_idempotent_witness:
  "correct_input_start_times av_rescale_q ex_globals ex_registry = ex_registry"
  unfolding ex_registry_def by (rule corrector_idempotent)

subsection \<open>C8: skipped inputs keep their offset\<close>

text \<open>
  Claim C8. When input \<open>i\<close> has no sync reference, or names itself, or names an input that
  is itself synchronised with another one, or no comparable pair of start times exists,
  the loop body at \<open>i\<close> leaves the registry as it is and does not return, and the
  \<open>ts_offset\<close> of \<open>i\<close> after the synchronizer is what it was. The session continues: the
  loop goes on with the remaining indices on the same registry, every later input that
  the loop reaches without a fatal condition at another input holds what the loop body
  makes of it, and if the synchronizer fails it is because of another input.
\<close>

theorem skipped_input_keeps_ts_offset:
  assumes "i < length fs" and "r = input_sync_ref (fs ! i)"
    and "r = - 1 \<or> r = int i \<or>
         (0 \<le> r \<and> r < int (length fs) \<and> (copy_ts g = 0 \<or> start_at_zero g \<noteq> 0) \<and>
          ((input_sync_ref (fs ! nat r) \<noteq> - 1 \<and> input_sync_ref (fs ! nat r) \<noteq> r) \<or>
           sync_start_times (fs ! i) (fs ! nat r) = None))"
  shows "snd (sync_input g fs i) = Inr fs \<and>
         ts_offset (files_of (apply_sync_offsets g fs) ! i) = ts_offset (fs ! i) \<and>
         (ret_of (apply_sync_offsets g fs) = Inl EINVAL \<longrightarrow>
            (\<exists>j < length fs. j \<noteq> i \<and> sync_fatal g fs j)) \<and>
         (\<forall>lg rest. sync_loop g fs lg (i # rest) =
            sync_loop g fs (lg @ fst (sync_input g fs i)) rest) \<and>
         (\<forall>j. i < j \<and> j < length fs \<and> (\<forall>k \<le> j. k \<noteq> i \<longrightarrow> \<not> sync_fatal g fs k) \<longrightarrow>
            (\<exists>fs'. snd (sync_input g fs j) = Inr fs' \<and>
                   files_of (apply_sync_offsets g fs) ! j = fs' ! j))"
proof -
  have body: "snd (sync_input g fs i) = Inr fs"
    using assms(2,3) by (cases rule: sync_input_cases[of fs i g]) auto
  then have nf: "\<not> sync_fatal g fs i"
    using sync_input_fatal_iff[of g fs i] by simp
  have a: "ts_offset (files_of (apply_sync_offsets g fs) ! i) = ts_offset (fs ! i)"
    using apply_sync_offsets_unchanged[OF assms(1) body] by simp
  have b: "ret_of (apply_sync_offsets g fs) = Inl EINVAL \<longrightarrow>
            (\<exists>j < length fs. j \<noteq> i \<and> sync_fatal g fs j)"
    using nf apply_sync_offsets_ret[of g fs] by auto
  have c: "\<forall>lg rest. sync_loop g fs lg (i # rest) =
            sync_loop g fs (lg @ fst (sync_input g fs i)) rest"
  proof (intro allI)
    fix lg rest
    have "sync_input g fs i = (fst (sync_input g fs i), Inr fs)"
      using body by (simp add: prod_eq_iff)
    then show "sync_loop g fs lg (i # rest) =
            sync_loop g fs (lg @ fst (sync_input g fs i)) rest"
      by (metis (no_types, lifting) sync_loop.simps(2) old.prod.case sum.simps(6))
  qed
  have d: "\<forall>j. i < j \<and> j < length fs \<and> (\<forall>k \<le> j. k \<noteq> i \<longrightarrow> \<not> sync_fatal g fs k) \<longrightarrow>
            (\<exists>fs'. snd (sync_input g fs j) = Inr fs' \<and>
                   files_of (apply_sync_offsets g fs) ! j = fs' ! j)"
  proof (intro allI impI)
    fix j
    assume h: "i < j \<and> j < length fs \<and> (\<forall>k \<le> j. k \<noteq> i \<longrightarrow> \<not> sync_fatal g fs k)"
    then have "\<forall>k \<le> j. \<not> sync_fatal g fs k" using nf by blast
    then show "\<exists>fs'. snd (sync_input g fs j) = Inr fs' \<and>
                   files_of (apply_sync_offsets g fs) ! j = fs' ! j"
      using h by (intro apply_sync_offsets_before_fatal) simp_all
  qed
  show ?thesis using body a b c d by blast
qed

theorem skipped_input_keeps_ts_offset_witness:
  "input_sync_ref (ex_skipping_registry ! 0) = - 1 \<and>
   input_sync_ref (ex_skipping_registry ! 1) = int 1 \<and>
   input_sync_ref (ex_skipping_registry ! 2) = 3 \<and>
   input_sync_ref (ex_skipping_registry ! 3) = 0 \<and>
   input_sync_ref (ex_skipping_registry ! 4) = 0 \<and>
   sync_start_times (ex_skipping_registry ! 4) (ex_skipping_registry ! 0) = None \<and>
   ts_offset (files_of (apply_sync_offsets ex_globals ex_skipping_registry) ! 0) =
     ts_offset (ex_skipping_registry ! 0) \<and>
   ts_offset (files_of (apply_sync_offsets ex_globals ex_skipping_registry) ! 1) =
     ts_offset (ex_skipping_registry ! 1) \<and>
   ts_offset (files_of (apply_sync_offsets ex_globals ex_skipping_registry) ! 2) =
     ts_offset (ex_skipping_registry ! 2) \<and>
   ts_offset (files_of (apply_sync_offsets ex_globals ex_skipping_registry) ! 4) =
     ts_offset (ex_skipping_registry ! 4) \<and>
   ts_offset (ex_skipping_registry ! 3) = 0 \<and>
   ts_offset (files_of (apply_sync_offsets ex_globals ex_skipping_registry) ! 3) = 200000 \<and>
   ts_offset (ex_skipping_registry ! 5) = 0 \<and>
   ts_offset (files_of (apply_sync_offsets ex_globals ex_skipping_registry) ! 5) = 200000"
proof -
  let ?fs = "ex_skipping_registry"
  let ?res = "apply_sync_offsets ex_globals ex_skipping_registry"
  have len: "length ?fs = 6" by code_simp
  have refs: "input_sync_ref (?fs ! 0) = - 1" "input_sync_ref (?fs ! 1) = int 1"
    "input_sync_ref (?fs ! 2) = 3" "input_sync_ref (?fs ! 3) = 0"
    "input_sync_ref (?fs ! 4) = 0"
    "sync_start_times (?fs ! 4) (?fs ! 0) = None"
    "ts_offset (?fs ! 3) = 0" "ts_offset (?fs ! 5) = 0"
    by code_simp+
  have ok: "ret_of ?res = Inr ()" by code_simp
  have nf: "\<forall>k < length ?fs. \<not> sync_fatal ex_globals ?fs k"
    using ok by (simp only: apply_sync_offsets_success)

  have c0: "(- 1 :: int) = - 1 \<or> (- 1 :: int) = int 0 \<or>
         (0 \<le> (- 1 :: int) \<and> (- 1 :: int) < int (length ?fs) \<and>
          (copy_ts ex_globals = 0 \<or> start_at_zero ex_globals \<noteq> 0) \<and>
          ((input_sync_ref (?fs ! nat (- 1)) \<noteq> - 1 \<and>
            input_sync_ref (?fs ! nat (- 1)) \<noteq> - 1) \<or>
           sync_start_times (?fs ! 0) (?fs ! nat (- 1)) = None))"
    by simp
  have c1: "int 1 = - 1 \<or> int 1 = int 1 \<or>
         (0 \<le> int 1 \<and> int 1 < int (length ?fs) \<and>
          (copy_ts ex_globals = 0 \<or> start_at_zero ex_globals \<noteq> 0) \<and>
          ((input_sync_ref (?fs ! nat (int 1)) \<noteq> - 1 \<and>
            input_sync_ref (?fs ! nat (int 1)) \<noteq> int 1) \<or>
           sync_start_times (?fs ! 1) (?fs ! nat (int 1)) = None))"
    by simp
  have c2: "(3 :: int) = - 1 \<or> (3 :: int) = int 2 \<or>
         (0 \<le> (3 :: int) \<and> (3 :: int) < int (length ?fs) \<and>
          (copy_ts ex_globals = 0 \<or> start_at_zero ex_globals \<noteq> 0) \<and>
          ((input_sync_ref (?fs ! nat 3) \<noteq> - 1 \<and> input_sync_ref (?fs ! nat 3) \<noteq> 3) \<or>
           sync_start_times (?fs ! 2) (?fs ! nat 3) = None))"
    by code_simp
  have c4: "(0 :: int) = - 1 \<or> (0 :: int) = int 4 \<or>
         (0 \<le> (0 :: int) \<and> (0 :: int) < int (length ?fs) \<and>
          (copy_ts ex_globals = 0 \<or> start_at_zero ex_globals \<noteq> 0) \<and>
          ((input_sync_ref (?fs ! nat 0) \<noteq> - 1 \<and> input_sync_ref (?fs ! nat 0) \<noteq> 0) \<or>
           sync_start_times (?fs ! 4) (?fs ! nat 0) = None))"
    by code_simp
  have i0: "0 < length ?fs" and i1: "1 < length ?fs" and i2: "2 < length ?fs"
    and i4: "4 < length ?fs"
    by (simp_all add: len)
  note t0 = skipped_input_keeps_ts_offset[OF i0 refs(1)[symmetric] c0]
  note t1 = skipped_input_keeps_ts_offset[OF i1 refs(2)[symmetric] c1]
  note t2 = skipped_input_keeps_ts_offset[OF i2 refs(3)[symmetric] c2]
  note t4 = skipped_input_keeps_ts_offset[OF i4 refs(5)[symmetric] c4]
  have u0: "ts_offset (files_of ?res ! 0) = ts_offset (?fs ! 0)" using t0 by blast
  have u1: "ts_offset (files_of ?res ! 1) = ts_offset (?fs ! 1)" using t1 by blast
  have u2: "ts_offset (files_of ?res ! 2) = ts_offset (?fs ! 2)" using t2 by blast
  have u4: "ts_offset (files_of ?res ! 4) = ts_offset (?fs ! 4)" using t4 by blast

  have next2: "\<forall>j. 2 < j \<and> j < length ?fs \<and>
        (\<forall>k \<le> j. k \<noteq> 2 \<longrightarrow> \<not> sync_fatal ex_globals ?fs k) \<longrightarrow>
        (\<exists>fs'. snd (sync_input ex_globals ?fs j) = Inr fs' \<and> files_of ?res ! j = fs' ! j)"
    using t2 by blast
  have p3: "2 < (3::nat) \<and> 3 < length ?fs \<and>
        (\<forall>k \<le> 3. k \<noteq> 2 \<longrightarrow> \<not> sync_fatal ex_globals ?fs k)"
    using nf len by simp
  obtain fs3 where fs3: "snd (sync_input ex_globals ?fs 3) = Inr fs3"
      "files_of ?res ! 3 = fs3 ! 3"
    using next2[rule_format, OF p3] by blast
  have body3: "snd (sync_input ex_globals ?fs 3) =
      Inr (?fs[3 := (?fs ! 3)\<lparr>ts_offset := 200000\<rparr>])"
    by code_simp
  have val3: "ts_offset ((?fs[3 := (?fs ! 3)\<lparr>ts_offset := 200000\<rparr>]) ! 3) = 200000"
    by code_simp
  have a3: "ts_offset (files_of ?res ! 3) = 200000" using fs3 body3 val3 by simp

  have next4: "\<forall>j. 4 < j \<and> j < length ?fs \<and>
        (\<forall>k \<le> j. k \<noteq> 4 \<longrightarrow> \<not> sync_fatal ex_globals ?fs k) \<longrightarrow>
        (\<exists>fs'. snd (sync_input ex_globals ?fs j) = Inr fs' \<and> files_of ?res ! j = fs' ! j)"
    using t4 by blast
  have p5: "4 < (5::nat) \<and> 5 < length ?fs \<and>
        (\<forall>k \<le> 5. k \<noteq> 4 \<longrightarrow> \<not> sync_fatal ex_globals ?fs k)"
    using nf len by simp
  obtain fs5 where fs5: "snd (sync_input ex_globals ?fs 5) = Inr fs5"
      "files_of ?res ! 5 = fs5 ! 5"
    using next4[rule_format, OF p5] by blast
  have body5: "snd (sync_input ex_globals ?fs 5) =
      Inr (?fs[5 := (?fs ! 5)\<lparr>ts_offset := 200000\<rparr>])"
    by code_simp
  have val5: "ts_offset ((?fs[5 := (?fs ! 5)\<lparr>ts_offset := 200000\<rparr>]) ! 5) = 200000"
    by code_simp
  have a5: "ts_offset (files_of ?res ! 5) = 200000" using fs5 body5 val5 by simp

  show ?thesis using refs u0 u1 u2 u4 a3 a5 by simp
qed

subsection \<open>C9: which start times are compared\<close>

text \<open>
  Claim C9. For an input \<open>i\<close> that is synchronised with an input \<open>r\<close> (in range, not itself
  synchronised with a third input, no fatal condition up to \<open>i\<close>), the adjustment uses the
  wall-clock start times when both are known; otherwise the effective start times when
  both are known; and when neither pair is known the body writes an informational message,
  leaves the registry as it is and goes on.
\<close>

theorem start_times_by_preference:
  assumes "i < length fs" and "r = input_sync_ref (fs ! i)"
    and "0 \<le> r" "r < int (length fs)" and "r \<noteq> int i"
    and "\<forall>j \<le> i. \<not> sync_fatal g fs j"
    and "input_sync_ref (fs ! nat r) = - 1 \<or> input_sync_ref (fs ! nat r) = r"
    and "self = fs ! i" and "ref = fs ! nat r"
    and "seek = (if copy_ts g \<noteq> 0 then 0 else 1) * (seek_start self - seek_start ref)"
  shows "(realtime_known self ref \<longrightarrow>
            ts_offset (files_of (apply_sync_offsets g fs) ! i) =
            ts_offset self +
            ((start_time_realtime (ctx self) - start_time_realtime (ctx ref)) + seek +
             input_ts_offset ref)) \<and>
         (\<not> realtime_known self ref \<and> effective_known self ref \<longrightarrow>
            ts_offset (files_of (apply_sync_offsets g fs) ! i) =
            ts_offset self +
            ((start_time_effective self - start_time_effective ref) + seek +
             input_ts_offset ref)) \<and>
         (\<not> realtime_known self ref \<and> \<not> effective_known self ref \<longrightarrow>
            sync_input g fs i = ([(AV_LOG_INFO, No_start_times i r)], Inr fs) \<and>
            files_of (apply_sync_offsets g fs) ! i = fs ! i)"
proof (intro conjI impI)
  assume "realtime_known self ref"
  then have "sync_start_times (fs ! i) (fs ! nat r) =
      Some (start_time_realtime (ctx self), start_time_realtime (ctx ref))"
    using assms(8,9) by (simp add: sync_start_times_def realtime_known_def)
  from apply_sync_offsets_adjusted[OF assms(1-7) this]
  show "ts_offset (files_of (apply_sync_offsets g fs) ! i) =
            ts_offset self +
            ((start_time_realtime (ctx self) - start_time_realtime (ctx ref)) + seek +
             input_ts_offset ref)"
    using assms(8,9,10) by simp
next
  assume "\<not> realtime_known self ref \<and> effective_known self ref"
  then have "sync_start_times (fs ! i) (fs ! nat r) =
      Some (start_time_effective self, start_time_effective ref)"
    using assms(8,9) by (auto simp: sync_start_times_def realtime_known_def effective_known_def)
  from apply_sync_offsets_adjusted[OF assms(1-7) this]
  show "ts_offset (files_of (apply_sync_offsets g fs) ! i) =
            ts_offset self +
            ((start_time_effective self - start_time_effective ref) + seek +
             input_ts_offset ref)"
    using assms(8,9,10) by simp
next
  assume h: "\<not> realtime_known self ref \<and> \<not> effective_known self ref"
  then have none: "sync_start_times (fs ! i) (fs ! nat r) = None"
    using assms(8,9) by (auto simp: sync_start_times_def realtime_known_def effective_known_def)
  have "\<not> sync_fatal g fs i" using assms(6) by simp
  then have fl: "copy_ts g = 0 \<or> start_at_zero g \<noteq> 0"
    using assms(2-5) by (auto simp: sync_fatal_def active_ref_def)
  show body: "sync_input g fs i = ([(AV_LOG_INFO, No_start_times i r)], Inr fs)"
    using sync_input_no_start_times[of fs i g] assms(2-5,7) fl none by simp
  show "files_of (apply_sync_offsets g fs) ! i = fs ! i"
    using assms(1) body by (intro apply_sync_offsets_unchanged) simp_all
qed

theorem start_times_by_preference_witness:
  "\<not> realtime_known (ex_registry ! 1) (ex_registry ! 0) \<and>
   effective_known (ex_registry ! 1) (ex_registry ! 0) \<and>
   start_time_effective (ex_registry ! 1) = 1200000 \<and>
   start_time_effective (ex_registry ! 0) = 1000000 \<and>
   ts_offset (files_of (apply_sync_offsets ex_globals ex_registry) ! 1) =
     ts_offset (ex_registry ! 1) + 200000"
proof -
  have h1: "1 < length ex_registry" by code_simp
  have h2: "0 = input_sync_ref (ex_registry ! 1)" by code_simp
  have h3: "(0::int) \<le> 0" by simp
  have h4: "0 < int (length ex_registry)" by code_simp
  have h5: "0 \<noteq> int 1" by simp
  have h6: "\<forall>j \<le> 1. \<not> sync_fatal ex_globals ex_registry j"
    by (rule all_le_1) code_simp+
  have h7: "input_sync_ref (ex_registry ! nat 0) = - 1 \<or> input_sync_ref (ex_registry ! nat 0) = 0"
    by code_simp
  have k: "\<not> realtime_known (ex_registry ! 1) (ex_registry ! 0)"
    "effective_known (ex_registry ! 1) (ex_registry ! 0)"
    by code_simp+
  have v: "seek_start (ex_registry ! 1) = 0" "seek_start (ex_registry ! 0) = 0"
    "input_ts_offset (ex_registry ! 0) = 0" "copy_ts ex_globals = 0"
    "start_time_effective (ex_registry ! 1) = 1200000"
    "start_time_effective (ex_registry ! 0) = 1000000"
    by code_simp+
  from start_times_by_preference[OF h1 h2 h3 h4 h5 h6 h7 refl refl refl] k
  have "ts_offset (files_of (apply_sync_offsets ex_globals ex_registry) ! 1) =
     ts_offset (ex_registry ! 1) + 200000"
    by (simp add: v del: One_nat_def)
  then show ?thesis using k v by (simp del: One_nat_def)
qed

subsection \<open>C10: two inputs that name each other\<close>

text \<open>
  Claim C10. If two distinct inputs name each other, every reference is in range and
  \<^verbatim>\<open>copy_ts\<close> is not set without \<^verbatim>\<open>start_at_zero\<close>, then for each of the two the loop body
  reports an error and leaves the registry as it is, both messages are in the diagnostics
  of the run, neither \<open>ts_offset\<close> changes, and the synchronizer returns success.
\<close>

theorem mutual_references_are_skipped:
  assumes "a < length fs" "b < length fs" "a \<noteq> b"
    and "input_sync_ref (fs ! a) = int b" "input_sync_ref (fs ! b) = int a"
    and "\<forall>i < length fs. \<not> ref_out_of_range fs i"
    and "copy_ts g = 0 \<or> start_at_zero g \<noteq> 0"
  shows "ret_of (apply_sync_offsets g fs) = Inr () \<and>
         sync_input g fs a = ([(AV_LOG_ERROR, Resynced_input a (int b))], Inr fs) \<and>
         sync_input g fs b = ([(AV_LOG_ERROR, Resynced_input b (int a))], Inr fs) \<and>
         (AV_LOG_ERROR, Resynced_input a (int b)) \<in> set (log_of (apply_sync_offsets g fs)) \<and>
         (AV_LOG_ERROR, Resynced_input b (int a)) \<in> set (log_of (apply_sync_offsets g fs)) \<and>
         ts_offset (files_of (apply_sync_offsets g fs) ! a) = ts_offset (fs ! a) \<and>
         ts_offset (files_of (apply_sync_offsets g fs) ! b) = ts_offset (fs ! b)"
proof -
  have nf: "\<forall>j < length fs. \<not> sync_fatal g fs j"
    using assms(6,7) by (auto simp: sync_fatal_def)
  then have ok: "ret_of (apply_sync_offsets g fs) = Inr ()"
    by (simp add: apply_sync_offsets_success)
  have sa: "sync_input g fs a = ([(AV_LOG_ERROR, Resynced_input a (int b))], Inr fs)"
    using sync_input_resynced[of fs a g] assms(1-5,7) by simp
  have sb: "sync_input g fs b = ([(AV_LOG_ERROR, Resynced_input b (int a))], Inr fs)"
    using sync_input_resynced[of fs b g] assms(1-5,7) by simp
  have lg: "log_of (apply_sync_offsets g fs) =
      concat (map (\<lambda>j. fst (sync_input g fs j)) [0 ..< length fs])"
    using nf by (rule apply_sync_offsets_log)
  have la: "(AV_LOG_ERROR, Resynced_input a (int b)) \<in> set (log_of (apply_sync_offsets g fs))"
    unfolding lg using assms(1) sa by (auto intro!: bexI[of _ a])
  have lb: "(AV_LOG_ERROR, Resynced_input b (int a)) \<in> set (log_of (apply_sync_offsets g fs))"
    unfolding lg using assms(2) sb by (auto intro!: bexI[of _ b])
  have ua: "files_of (apply_sync_offsets g fs) ! a = fs ! a"
    using assms(1) sa by (intro apply_sync_offsets_unchanged) simp_all
  have ub: "files_of (apply_sync_offsets g fs) ! b = fs ! b"
    using assms(2) sb by (intro apply_sync_offsets_unchanged) simp_all
  show ?thesis using ok sa sb la lb ua ub by simp
qed

theorem mutual_references_are_skipped_witness:
  "input_sync_ref (ex_mutual_registry ! 0) = 1 \<and>
   input_sync_ref (ex_mutual_registry ! 1) = 0 \<and>
   ret_of (apply_sync_offsets ex_globals ex_mutual_registry) = Inr () \<and>
   log_of (apply_sync_offsets ex_globals ex_mutual_registry) =
     [(AV_LOG_ERROR, Resynced_input 0 1), (AV_LOG_ERROR, Resynced_input 1 0)] \<and>
   ts_offset (files_of (apply_sync_offsets ex_globals ex_mutual_registry) ! 0) =
     ts_offset (ex_mutual_registry ! 0) \<and>
   ts_offset (files_of (apply_sync_offsets ex_globals ex_mutual_registry) ! 1) =
     ts_offset (ex_mutual_registry ! 1)"
proof -
  have h1: "0 < length ex_mutual_registry" and h2: "1 < length ex_mutual_registry"
    by code_simp+
  have h3: "(0::nat) \<noteq> 1" by simp
  have h4: "input_sync_ref (ex_mutual_registry ! 0) = int 1"
    and h5: "input_sync_ref (ex_mutual_registry ! 1) = int 0"
    by code_simp+
  have len: "length ex_mutual_registry = 2" by code_simp
  have h6: "\<forall>i < length ex_mutual_registry. \<not> ref_out_of_range ex_mutual_registry i"
    unfolding len by (rule all_less_2) code_simp+
  have h7: "copy_ts ex_globals = 0 \<or> start_at_zero ex_globals \<noteq> 0" by code_simp
  have lg: "log_of (apply_sync_offsets ex_globals ex_mutual_registry) =
     [(AV_LOG_ERROR, Resynced_input 0 1), (AV_LOG_ERROR, Resynced_input 1 0)]"
    by code_simp
  from mutual_references_are_skipped[OF h1 h2 h3 h4 h5 h6 h7] h4 h5 lg
  show ?thesis by simp
qed

end
